theory Spec2Isabelle
  imports Main "HOL-Library.AList"
begin

section \<open>JavaScript values and errors\<close>

text \<open>
  The values that flow through the client: route parameters, search parameters, request
  bodies and parsed responses. The universe is \<open>undefined\<close>, \<open>null\<close>, booleans, numbers,
  strings, arrays and plain objects. Numbers are the integers (a double that holds an
  integer below \<open>2^53\<close> prints as its decimal numeral); fractions, \<open>NaN\<close> and the
  infinities are outside the model. A plain object is the list of its own enumerable
  properties in insertion order; properties inherited from \<open>Object.prototype\<close> are
  outside the model, and so are symbols, functions and bigints: \<open>undefined\<close> is the one
  value of the universe whose \<open>typeof\<close> is neither string, boolean, number nor object.
\<close>

datatype jsval =
    JUndefined
  | JNull
  | JBool bool
  | JNum int
  | JStr string
  | JArr "jsval list"
  | JObj "(string \<times> jsval) list"

text \<open>
  Every \<open>throw\<close> of the source is a value of \<open>js_error\<close>, named after the constructor
  the source calls, with the message it builds. \<open>ZodError\<close> is what a schema's
  \<open>parse\<close> or \<open>parseAsync\<close> rejects with; \<open>NetworkError\<close> is a rejection of the transport.
\<close>

datatype js_error =
    Error string
  | TypeError string
  | ReferenceError string
  | DOMException string string
  | SyntaxError string
  | ZodError string
  | NetworkError string

subsection \<open>Strings\<close>

definition startsWith :: "string \<Rightarrow> string \<Rightarrow> bool" where
  "startsWith s p = (take (length p) s = p)"

definition endsWith :: "string \<Rightarrow> string \<Rightarrow> bool" where
  "endsWith s p = (length p \<le> length s \<and> drop (length s - length p) s = p)"

text \<open>\<open>s.includes(p)\<close>: \<open>p\<close> occurs in \<open>s\<close> as a contiguous substring.\<close>

fun js_includes :: "string \<Rightarrow> string \<Rightarrow> bool" where
  "js_includes [] p = (p = [])"
| "js_includes (c # s) p = (startsWith (c # s) p \<or> js_includes s p)"

text \<open>\<open>xs.join(sep)\<close> on strings.\<close>

fun join :: "string \<Rightarrow> string list \<Rightarrow> string" where
  "join sep [] = []"
| "join sep [x] = x"
| "join sep (x # y # ys) = x @ sep @ join sep (y # ys)"

text \<open>The double quote character, as it stands in the source's messages.\<close>

definition dquote :: string where
  "dquote = [CHR 0x22]"

text \<open>Decimal numerals, as \<open>String(n)\<close> prints an integer.\<close>

definition digit_char :: "nat \<Rightarrow> char" where
  "digit_char d = char_of (48 + d)"

fun show_nat :: "nat \<Rightarrow> string" where
  "show_nat n = (if n < 10 then [digit_char n] else show_nat (n div 10) @ [digit_char (n mod 10)])"

declare show_nat.simps [simp del]

definition show_int :: "int \<Rightarrow> string" where
  "show_int i = (if i < 0 then CHR ''-'' # show_nat (nat (- i)) else show_nat (nat i))"

text \<open>
  \<open>String(v)\<close>. An array prints its elements joined by commas, \<open>null\<close> and \<open>undefined\<close>
  elements as the empty string; a plain object prints as \<open>[object Object]\<close>.
\<close>

fun js_String :: "jsval \<Rightarrow> string" where
  "js_String JUndefined = ''undefined''"
| "js_String JNull = ''null''"
| "js_String (JBool b) = (if b then ''true'' else ''false'')"
| "js_String (JNum n) = show_int n"
| "js_String (JStr s) = s"
| "js_String (JArr xs) =
     join '','' (map (\<lambda>x. if x = JUndefined \<or> x = JNull then [] else js_String x) xs)"
| "js_String (JObj es) = ''[object Object]''"

text \<open>\<open>!!v\<close>: the falsy values are \<open>undefined\<close>, \<open>null\<close>, \<open>false\<close>, \<open>0\<close> and the empty string.\<close>

fun truthy :: "jsval \<Rightarrow> bool" where
  "truthy JUndefined = False"
| "truthy JNull = False"
| "truthy (JBool b) = b"
| "truthy (JNum n) = (n \<noteq> 0)"
| "truthy (JStr s) = (s \<noteq> [])"
| "truthy (JArr xs) = True"
| "truthy (JObj es) = True"

text \<open>\<open>v == null\<close>: true of \<open>null\<close> and \<open>undefined\<close> only.\<close>

definition nullish :: "jsval \<Rightarrow> bool" where
  "nullish v = (v = JNull \<or> v = JUndefined)"

text \<open>\<open>obj[key]\<close> on the own properties of a plain object: \<open>undefined\<close> when absent.\<close>

definition prop_get :: "(string \<times> jsval) list \<Rightarrow> string \<Rightarrow> jsval" where
  "prop_get obj k = (case map_of obj k of None \<Rightarrow> JUndefined | Some v \<Rightarrow> v)"

section \<open>The path templater: \<open>src/generate-path.ts\<close>\<close>

text \<open>
  \<open>path.split(/\/+/)\<close>: a run of slashes is one separator; a separator at either end
  leaves an empty string there, and the empty string splits into one empty segment.
\<close>

fun split_slashes :: "string \<Rightarrow> string list" where
  "split_slashes [] = [[]]"
| "split_slashes (c # cs) =
     (if c = CHR ''/'' then
        (case cs of
           d # ds \<Rightarrow> if d = CHR ''/'' then split_slashes cs else [] # split_slashes cs
         | [] \<Rightarrow> [] # split_slashes cs)
      else (let r = split_slashes cs in (c # hd r) # tl r))"

text \<open>The character class \<open>\w\<close>: ASCII letters, digits and the underscore.\<close>

definition is_upper :: "char \<Rightarrow> bool" where
  "is_upper c = (65 \<le> (of_char c :: nat) \<and> (of_char c :: nat) \<le> 90)"

definition is_lower :: "char \<Rightarrow> bool" where
  "is_lower c = (97 \<le> (of_char c :: nat) \<and> (of_char c :: nat) \<le> 122)"

definition is_digit :: "char \<Rightarrow> bool" where
  "is_digit c = (48 \<le> (of_char c :: nat) \<and> (of_char c :: nat) \<le> 57)"

definition is_word_char :: "char \<Rightarrow> bool" where
  "is_word_char c = (is_upper c \<or> is_lower c \<or> is_digit c \<or> c = CHR ''_'')"

text \<open>
  \<open>segment.match(/^:(\w+)(\??)$/)\<close>: the key and whether the optional marker follows
  it, or \<open>None\<close> when the segment is not a named parameter.
\<close>

definition keyMatch :: "string \<Rightarrow> (string \<times> bool) option" where
  "keyMatch segment =
     (case segment of
        [] \<Rightarrow> None
      | c # rest \<Rightarrow>
          if c \<noteq> CHR '':'' then None
          else
            (let optional = (rest \<noteq> [] \<and> last rest = CHR ''?'');
                 key = (if optional then butlast rest else rest)
             in if key \<noteq> [] \<and> list_all is_word_char key then Some (key, optional) else None))"

text \<open>\<open>segment.replace(/\?$/g, "")\<close>: one optional marker at the end is removed.\<close>

definition stripOptionalMarker :: "string \<Rightarrow> string" where
  "stripOptionalMarker segment =
     (if segment \<noteq> [] \<and> last segment = CHR ''?'' then butlast segment else segment)"

text \<open>
  The callback of \<open>.map\<close>: what one segment resolves to. \<open>isLastSegment\<close> is
  \<open>index === array.length - 1\<close>. \<open>invariant(false, msg)\<close> throws \<open>new Error(msg)\<close>.
\<close>

definition resolveSegment :: "(string \<times> jsval) list \<Rightarrow> bool \<Rightarrow> string \<Rightarrow> js_error + jsval" where
  "resolveSegment params isLastSegment segment =
     (if isLastSegment \<and> segment = ''*'' then Inr (prop_get params ''*'')
      else
        (case keyMatch segment of
           Some (key, optional) \<Rightarrow>
             (let param = prop_get params key in
              if optional then Inr (if nullish param then JStr [] else param)
              else if nullish param then Inl (Error (''Missing '' @ dquote @ '':'' @ key @ dquote @ '' param''))
              else Inr param)
         | None \<Rightarrow> Inr (JStr (stripOptionalMarker segment))))"

text \<open>\<open>.map\<close> over the segments, left to right: the first segment that throws ends it.\<close>

fun mapSegments :: "(string \<times> jsval) list \<Rightarrow> string list \<Rightarrow> js_error + jsval list" where
  "mapSegments params [] = Inr []"
| "mapSegments params (segment # rest) =
     (case resolveSegment params (rest = []) segment of
        Inl e \<Rightarrow> Inl e
      | Inr v \<Rightarrow>
          (case mapSegments params rest of
             Inl e \<Rightarrow> Inl e
           | Inr vs \<Rightarrow> Inr (v # vs)))"

text \<open>
  The template after the first \<open>if\<close>: a trailing \<open>*\<close> that does not follow a slash is
  read as \<open>/*\<close> (the warning goes to the console and changes nothing else).
\<close>

definition normalizeSplat :: "string \<Rightarrow> string" where
  "normalizeSplat path =
     (if endsWith path ''*'' \<and> path \<noteq> ''*'' \<and> \<not> endsWith path ''/*''
      then butlast path @ ''/*'' else path)"

definition generatePath :: "string \<Rightarrow> (string \<times> jsval) list \<Rightarrow> js_error + string" where
  "generatePath originalPath params =
     (let path = normalizeSplat originalPath;
          prefix = (if startsWith path ''/'' then ''/'' else '''');
          trailingSlash = (if endsWith path ''/'' then ''/'' else '''')
      in case mapSegments params (split_slashes path) of
           Inl e \<Rightarrow> Inl e
         | Inr segments \<Rightarrow>
             Inr (prefix @ join ''/'' (map js_String (filter truthy segments)) @ trailingSlash))"


section \<open>The key-casing codec: \<open>src/json.ts\<close>\<close>

subsection \<open>The \<open>inflected\<close> package\<close>

text \<open>
  \<open>underscore\<close> and \<open>camelize\<close> are imported from the package \<open>inflected\<close> (version 2.1,
  a dependency named in \<open>package.json\<close>; its source is not part of this repository).
  They are modelled after the package's published source, with its default inflections:
  no acronyms are registered, so its acronym pattern matches nothing and its table of
  acronyms is the empty object. Letters are ASCII, and terms with a colon are outside
  the model.
\<close>

definition toLowerCase_char :: "char \<Rightarrow> char" where
  "toLowerCase_char c = (if is_upper c then char_of ((of_char c :: nat) + 32) else c)"

definition toUpperCase_char :: "char \<Rightarrow> char" where
  "toUpperCase_char c = (if is_lower c then char_of ((of_char c :: nat) - 32) else c)"

text \<open>
  \<open>result.replace(/([A-Z\d]+)([A-Z][a-z])/g, "$1_$2")\<close>. The first group is a run of
  capitals and digits and the second group starts with a capital and ends with a small
  letter, so a match ends where a character of the run, a capital and a small letter
  follow each other; the underscore goes before the capital, and the search goes on
  behind the small letter.
\<close>

fun underscore_runs :: "string \<Rightarrow> string" where
  "underscore_runs (a # b # c # rest) =
     (if (is_upper a \<or> is_digit a) \<and> is_upper b \<and> is_lower c
      then a # CHR ''_'' # b # c # underscore_runs rest
      else a # underscore_runs (b # c # rest))"
| "underscore_runs s = s"

text \<open>\<open>result.replace(/([a-z\d])([A-Z])/g, "$1_$2")\<close>.\<close>

fun underscore_humps :: "string \<Rightarrow> string" where
  "underscore_humps (a # b # rest) =
     (if (is_lower a \<or> is_digit a) \<and> is_upper b
      then a # CHR ''_'' # b # underscore_humps rest
      else a # underscore_humps (b # rest))"
| "underscore_humps s = s"

text \<open>\<open>underscore(camelCasedWord)\<close>: the two replacements, \<open>-\<close> to \<open>_\<close>, then lower case.\<close>

definition underscore :: "string \<Rightarrow> string" where
  "underscore camelCasedWord =
     map toLowerCase_char
       (map (\<lambda>c. if c = CHR ''-'' then CHR ''_'' else c)
          (underscore_humps (underscore_runs camelCasedWord)))"

text \<open>\<open>capitalize(str)\<close>: the first character in upper case, the rest as it is.\<close>

definition capitalize :: "string \<Rightarrow> string" where
  "capitalize str = (case str of [] \<Rightarrow> [] | c # cs \<Rightarrow> toUpperCase_char c # cs)"

text \<open>
  \<open>inflections().acronyms[b] || capitalize(b)\<close>. No acronym is registered, and
  \<open>acronyms\<close> is an object literal without a property of its own, so the lookup finds
  what \<open>b\<close> names in \<open>Object.prototype\<close>: one of its seven methods whose name is made of
  letters, or nothing. A method is truthy, and the concatenation that follows turns it
  into its source text, which for a native function is
  \<open>function name() { [native code] }\<close> (Node, the platform of the tests).
\<close>

definition nativeFunction :: "string \<Rightarrow> string" where
  "nativeFunction name = ''function '' @ name @ ''() { [native code] }''"

definition objectPrototype :: "(string \<times> string) list" where
  "objectPrototype =
     [(''constructor'', nativeFunction ''Object''),
      (''hasOwnProperty'', nativeFunction ''hasOwnProperty''),
      (''isPrototypeOf'', nativeFunction ''isPrototypeOf''),
      (''propertyIsEnumerable'', nativeFunction ''propertyIsEnumerable''),
      (''toLocaleString'', nativeFunction ''toLocaleString''),
      (''toString'', nativeFunction ''toString''),
      (''valueOf'', nativeFunction ''valueOf'')]"

definition acronym_or_capitalize :: "string \<Rightarrow> string" where
  "acronym_or_capitalize b =
     (case map_of objectPrototype b of Some inherited \<Rightarrow> inherited | None \<Rightarrow> capitalize b)"

text \<open>
  \<open>result.replace(/(?:_|(\/))([a-z\d]*)/gi, ...)\<close>: an underscore is dropped and a slash
  kept, and the run of letters and digits behind either is replaced by its acronym or
  capitalized.
\<close>

definition is_alnum :: "char \<Rightarrow> bool" where
  "is_alnum c = (is_upper c \<or> is_lower c \<or> is_digit c)"

lemma length_dropWhile_less_Suc: "length (dropWhile P xs) < Suc (length xs)"
  by (simp add: length_dropWhile_le less_Suc_eq_le)

function camelize_separators :: "string \<Rightarrow> string" where
  "camelize_separators [] = []"
| "camelize_separators (c # cs) =
     (if c = CHR ''_'' \<or> c = CHR ''/'' then
        (if c = CHR ''/'' then ''/'' else []) @ acronym_or_capitalize (takeWhile is_alnum cs)
          @ camelize_separators (dropWhile is_alnum cs)
      else c # camelize_separators cs)"
  by pat_completeness auto
termination
  by (relation "measure length") (auto simp: length_dropWhile_less_Suc)

text \<open>
  \<open>camelize(term, false)\<close>: the first character, when it is a word character, in lower
  case; then the separators.
\<close>

definition camelize_lower :: "string \<Rightarrow> string" where
  "camelize_lower term' =
     camelize_separators
       (case term' of [] \<Rightarrow> [] | c # cs \<Rightarrow> (if is_word_char c then toLowerCase_char c else c) # cs)"

subsection \<open>JSON text\<close>

text \<open>
  A JSON text is represented by the value it denotes: \<open>JSON.stringify\<close> and
  \<open>JSON.parse\<close> without their second argument are the platform's printer and parser,
  and on JSON values the parser reads back what the printer wrote. \<open>NotJSON\<close> is any
  text the parser rejects.
\<close>

datatype json_text = JSONText jsval | NotJSON string

text \<open>
  \<open>Object.fromEntries(entries)\<close>: the properties are defined one after the other; a key
  that comes again takes the later value and keeps its first position.
\<close>

definition fromEntries :: "(string \<times> jsval) list \<Rightarrow> (string \<times> jsval) list" where
  "fromEntries entries = foldl (\<lambda>obj (k, v). AList.update k v obj) [] entries"

text \<open>
  The object branch of both callbacks:
  \<open>Object.fromEntries(Object.entries(value).map(([key, value]) => [f(key), value]))\<close>.
\<close>

definition renameKeys :: "(string \<Rightarrow> string) \<Rightarrow> (string \<times> jsval) list \<Rightarrow> (string \<times> jsval) list" where
  "renameKeys f entries = fromEntries (map (\<lambda>(key, v). (f key, v)) entries)"

lemma set_update_subset: "set (AList.update k v al) \<subseteq> insert (k, v) (set al)"
  by (induction al) auto

lemma set_foldl_update_subset:
  "set (foldl (\<lambda>obj (k, v). AList.update k v obj) acc es) \<subseteq> set acc \<union> set es"
proof (induction es arbitrary: acc)
  case Nil
  then show ?case by simp
next
  case (Cons e es)
  obtain k v where e: "e = (k, v)" by (cases e)
  have "set (foldl (\<lambda>obj (k, v). AList.update k v obj) (AList.update k v acc) es)
          \<subseteq> set (AList.update k v acc) \<union> set es"
    by (rule Cons.IH)
  also have "\<dots> \<subseteq> insert (k, v) (set acc) \<union> set es"
    using set_update_subset [of k v acc] by blast
  finally show ?case by (auto simp: e)
qed

lemma renameKeys_values: "(k, v) \<in> set (renameKeys f es) \<Longrightarrow> \<exists>k'. (k', v) \<in> set es"
  using set_foldl_update_subset [of "[]" "map (\<lambda>(key, v). (f key, v)) es"]
  by (auto simp: renameKeys_def fromEntries_def)

lemma size_entry_less: "(k, v) \<in> set es \<Longrightarrow> size v < Suc (size_list (size_prod (\<lambda>_. 0) size) es)"
  by (induction es) auto

text \<open>
  \<open>JSON.stringify(input, replacer)\<close> calls the replacer on every value before it
  serializes it: on the input itself, then on each property of the object and each
  element of the array the replacer returned. The replacer of \<open>serialize\<close> returns a
  plain object with its keys renamed and every other value as it is. A property whose
  value is \<open>undefined\<close> is left out of an object; in an array it is written \<open>null\<close>.
\<close>

function stringify_renamed :: "(string \<Rightarrow> string) \<Rightarrow> jsval \<Rightarrow> jsval" where
  "stringify_renamed f (JObj es) =
     JObj (filter (\<lambda>(k, v). v \<noteq> JUndefined)
             (map (\<lambda>(k, v). (k, stringify_renamed f v)) (renameKeys f es)))"
| "stringify_renamed f (JArr xs) =
     JArr (map (\<lambda>x. let y = stringify_renamed f x in if y = JUndefined then JNull else y) xs)"
| "stringify_renamed f JUndefined = JUndefined"
| "stringify_renamed f JNull = JNull"
| "stringify_renamed f (JBool b) = JBool b"
| "stringify_renamed f (JNum n) = JNum n"
| "stringify_renamed f (JStr s) = JStr s"
  by pat_completeness auto
termination
proof (relation "measure (\<lambda>(f, v). size v)")
  show "wf (measure (\<lambda>(f, v). size v))" by simp
next
  fix f :: "string \<Rightarrow> string" and es :: "(string \<times> jsval) list" and x k v
  assume "x \<in> set (renameKeys f es)" and "(k, v) = x"
  then obtain k' where "(k', v) \<in> set es"
    using renameKeys_values by blast
  then show "((f, v), (f, JObj es)) \<in> measure (\<lambda>(f, v). size v)"
    using size_entry_less by auto
next
  fix f :: "string \<Rightarrow> string" and xs :: "jsval list" and x
  assume "x \<in> set xs"
  then show "((f, x), (f, JArr xs)) \<in> measure (\<lambda>(f, v). size v)"
    by (induction xs) auto
qed

text \<open>
  \<open>serialize(input)\<close>: the JSON text with the keys in snake case; \<open>undefined\<close> (here
  \<open>None\<close>) when the input is \<open>undefined\<close>.
\<close>

definition serialize :: "jsval \<Rightarrow> json_text option" where
  "serialize input =
     (let v = stringify_renamed underscore input
      in if v = JUndefined then None else Some (JSONText v))"

text \<open>
  \<open>JSON.parse(input, reviver)\<close> calls the reviver on every value after its properties
  and elements: the reviver of \<open>parse\<close> renames the keys of a plain object.
\<close>

fun revive_renamed :: "(string \<Rightarrow> string) \<Rightarrow> jsval \<Rightarrow> jsval" where
  "revive_renamed f (JObj es) = JObj (renameKeys f (map (\<lambda>(k, v). (k, revive_renamed f v)) es))"
| "revive_renamed f (JArr xs) = JArr (map (revive_renamed f) xs)"
| "revive_renamed f v = v"

definition parse :: "json_text \<Rightarrow> js_error + jsval" where
  "parse input =
     (case input of
        JSONText v \<Rightarrow> Inr (revive_renamed camelize_lower v)
      | NotJSON s \<Rightarrow> Inl (SyntaxError s))"


section \<open>The request engine: \<open>createAPIClient\<close>\<close>

text \<open>
  The engine is \<open>src/unnamed/part_003\<close>, the module the tests of the repository
  exercise. \<open>src/unnamed/part_002\<close> holds an earlier variant of the same module, which is
  not modelled.
\<close>

subsection \<open>Schemas, endpoints and the configuration\<close>

text \<open>
  A schema is used through \<open>parseAsync\<close> alone: it returns the parsed value or rejects.
\<close>

type_synonym schema = "jsval \<Rightarrow> js_error + jsval"

text \<open>
  An optional schema of an endpoint, as \<open>"key" in route\<close> and \<open>route.key\<close> see it: the
  key is absent, or present and \<open>undefined\<close>, or present with a schema.
\<close>

datatype slot = Absent | Undefined | Schema schema

text \<open>
  \<open>EndpointOptions\<close>, and an endpoint object that carries a key \<open>params\<close> beside the
  declared ones: \<open>paramsSchema\<close> is that key, which the type of the engine does not
  declare and no statement of the engine reads. \<open>successSchema\<close> and \<open>failureSchema\<close> are
  \<open>expects.success\<close> and \<open>expects.failure\<close>.
\<close>

record endpoint_options =
  paramsSchema :: slot
  searchSchema :: slot
  bodySchema :: slot
  successSchema :: schema
  failureSchema :: "schema option"

text \<open>
  A \<open>URL\<close> object, as far as the engine touches it: its serialization without the
  query, and the name-value pairs of its \<open>searchParams\<close>. A \<open>Headers\<close> object is the
  list of its entries.
\<close>

record url =
  href :: string
  searchParams :: "(string \<times> string) list"

type_synonym headers = "(string \<times> string) list"

datatype abort_signal = AbortSignal (aborted: bool)

text \<open>The \<open>Request\<close> handed to the transport: the URL and the \<open>init\<close> the engine built.\<close>

record http_request =
  requestURL :: url
  requestMethod :: string
  requestHeaders :: headers
  requestSignal :: "abort_signal option"
  requestBody :: "json_text option"

text \<open>
  The \<open>Response\<close>: \<open>contentType\<close> is \<open>headers.get("content-type")\<close> (\<open>None\<close> for
  \<open>null\<close>), \<open>bodyText\<close> what \<open>text()\<close> resolves to.
\<close>

record response =
  status :: int
  contentType :: "string option"
  bodyText :: json_text

text \<open>
  What a call does to the world outside: it hands a request to the transport, and it
  reads the body of the response.
\<close>

datatype event = Dispatched http_request | BodyRead

type_synonym outcome = "(js_error + jsval) \<times> event list"

text \<open>
  \<open>APIClientConfiguration\<close>. \<open>fetchHeaders\<close> is \<open>new Headers(configuration.fetch?.headers)\<close>
  (the other options of \<open>configuration.fetch\<close> are spread into the \<open>init\<close> unchanged and
  are not modelled). The measurement hook receives the endpoint and the thunk, here the
  thunk's outcome; the credentials hook receives the URL, the headers and the token, and
  what it leaves of the URL and the headers is what it returns here.
\<close>

record configuration =
  baseURL :: string
  endpoints :: "(string \<times> endpoint_options) list"
  fetchHeaders :: headers
  measureHook :: "(string \<Rightarrow> outcome \<Rightarrow> outcome) option"
  credentials :: "(url \<Rightarrow> headers \<Rightarrow> string option \<Rightarrow> js_error + url \<times> headers) option"

text \<open>
  The platform: \<open>new URL(input, base)\<close> and the global \<open>fetch\<close>, which resolves to a
  response or rejects.
\<close>

record platform =
  newURL :: "string \<Rightarrow> string \<Rightarrow> js_error + url"
  fetch :: "http_request \<Rightarrow> js_error + response"

text \<open>
  \<open>RequestOptions\<close>: each field is \<open>None\<close> when the key is absent (or \<open>undefined\<close>).
\<close>

record variables =
  varParams :: "(string \<times> jsval) list option"
  varSearch :: "jsval option"
  varBody :: "jsval option"

record request_options =
  optVariables :: "variables option"
  optHeaders :: "headers option"
  optSignal :: "abort_signal option"

subsection \<open>Helpers of the module\<close>

text \<open>The default \<open>measure\<close>: it returns what the thunk returns (and logs the duration).\<close>

definition measure_default :: "string \<Rightarrow> outcome \<Rightarrow> outcome" where
  "measure_default key fn = fn"

text \<open>
  \<open>mergeHeaders(...sources)\<close>. Every source is a \<open>Headers\<close> object here, so the
  \<open>isObject\<close> test never fails; an entry of a \<open>Headers\<close> object is a string, never
  \<open>undefined\<close>.
\<close>

fun mergeEntries :: "headers \<Rightarrow> headers \<Rightarrow> headers" where
  "mergeEntries result [] = result"
| "mergeEntries result ((key, v) # rest) =
     mergeEntries (if v = ''undefined'' then AList.delete key result else AList.update key v result) rest"

definition mergeHeaders :: "headers list \<Rightarrow> headers" where
  "mergeHeaders sources = foldl mergeEntries [] sources"

text \<open>
  \<open>searchParams.set(name, v)\<close>: the first pair of that name takes the value and the
  others are removed; without such a pair, one is appended. \<open>searchParams.append\<close> adds
  a pair at the end.
\<close>

fun searchParams_set :: "string \<Rightarrow> string \<Rightarrow> (string \<times> string) list \<Rightarrow> (string \<times> string) list" where
  "searchParams_set name v [] = [(name, v)]"
| "searchParams_set name v ((n, x) # rest) =
     (if n = name then (name, v) # filter (\<lambda>(m, y). m \<noteq> name) rest
      else (n, x) # searchParams_set name v rest)"

definition searchParams_append :: "string \<Rightarrow> string \<Rightarrow> (string \<times> string) list \<Rightarrow> (string \<times> string) list" where
  "searchParams_append name v sp = sp @ [(name, v)]"

text \<open>
  \<open>Object.entries(v)\<close>: the own properties of an object, the indexed elements of an
  array or a string, nothing for a boolean or a number; a \<open>TypeError\<close> for \<open>null\<close> and
  \<open>undefined\<close>.
\<close>

definition object_entries :: "jsval \<Rightarrow> js_error + (string \<times> jsval) list" where
  "object_entries v =
     (case v of
        JObj es \<Rightarrow> Inr es
      | JArr xs \<Rightarrow> Inr (zip (map show_nat [0 ..< length xs]) xs)
      | JStr s \<Rightarrow> Inr (zip (map show_nat [0 ..< length s]) (map (\<lambda>c. JStr [c]) s))
      | JBool b \<Rightarrow> Inr []
      | JNum n \<Rightarrow> Inr []
      | JNull \<Rightarrow> Inl (TypeError ''Cannot convert undefined or null to object'')
      | JUndefined \<Rightarrow> Inl (TypeError ''Cannot convert undefined or null to object''))"

subsection \<open>\<open>getURL\<close>, \<open>getSearchParams\<close>, \<open>getBody\<close>\<close>

text \<open>
  \<open>getURL(path, params)\<close> of \<open>part_003\<close>: \<open>params\<close> is \<open>undefined\<close> (here \<open>None\<close>) when
  the caller gave none, and \<open>generatePath\<close> then takes its default, the empty object.
\<close>

definition getURL :: "platform \<Rightarrow> configuration \<Rightarrow> string \<Rightarrow> (string \<times> jsval) list option \<Rightarrow> js_error + url" where
  "getURL pf configuration path params =
     (case generatePath path (case params of None \<Rightarrow> [] | Some ps \<Rightarrow> ps) of
        Inl e \<Rightarrow> Inl e
      | Inr p \<Rightarrow> newURL pf (drop 1 p) (baseURL configuration))"

text \<open>The body of the \<open>for\<close> loop of \<open>getSearchParams\<close>: one entry of the parsed search.\<close>

fun encodeEntry :: "url \<Rightarrow> string \<times> jsval \<Rightarrow> url" where
  "encodeEntry u (key, JStr s) = u\<lparr>searchParams := searchParams_set key s (searchParams u)\<rparr>"
| "encodeEntry u (key, JBool b) =
     u\<lparr>searchParams := searchParams_set key (js_String (JBool b)) (searchParams u)\<rparr>"
| "encodeEntry u (key, JNum n) =
     u\<lparr>searchParams := searchParams_set key (js_String (JNum n)) (searchParams u)\<rparr>"
| "encodeEntry u (key, JNull) = u"
| "encodeEntry u (key, JArr items) =
     u\<lparr>searchParams :=
         foldl (\<lambda>sp item. searchParams_append key (js_String item) sp) (searchParams u) items\<rparr>"
| "encodeEntry u (key, JObj es) =
     u\<lparr>searchParams :=
         foldl (\<lambda>sp (k, v). searchParams_append (key @ ''['' @ k @ '']'') (js_String v) sp)
           (searchParams u) es\<rparr>"
| "encodeEntry u (key, JUndefined) = u"

definition getSearchParams :: "endpoint_options \<Rightarrow> url \<Rightarrow> jsval \<Rightarrow> js_error + url" where
  "getSearchParams route u options =
     (case searchSchema route of
        Absent \<Rightarrow> Inr u
      | Undefined \<Rightarrow>
          (case object_entries JUndefined of
             Inl e \<Rightarrow> Inl e
           | Inr entries \<Rightarrow> Inr (foldl encodeEntry u entries))
      | Schema s \<Rightarrow>
          (case s options of
             Inl e \<Rightarrow> Inl e
           | Inr parsed \<Rightarrow>
               (case object_entries parsed of
                  Inl e \<Rightarrow> Inl e
                | Inr entries \<Rightarrow> Inr (foldl encodeEntry u entries))))"

definition getBody :: "endpoint_options \<Rightarrow> jsval \<Rightarrow> js_error + json_text option" where
  "getBody route options =
     (case bodySchema route of
        Absent \<Rightarrow> Inr None
      | Undefined \<Rightarrow> Inr (serialize JUndefined)
      | Schema s \<Rightarrow>
          (case s options of
             Inl e \<Rightarrow> Inl e
           | Inr parsed \<Rightarrow> Inr (serialize parsed)))"


subsection \<open>\<open>request\<close>\<close>

text \<open>\<open>endpoint.split(" ")\<close>: every single space separates.\<close>

fun split_on :: "char \<Rightarrow> string \<Rightarrow> string list" where
  "split_on sep [] = [[]]"
| "split_on sep (c # cs) =
     (if c = sep then [] # split_on sep cs
      else (let r = split_on sep cs in (c # hd r) # tl r))"

text \<open>
  \<open>z.tuple([RequestMethodSchema, z.string()]).parse(endpoint.split(" "))\<close>: exactly two
  parts, the first one of the five methods.
\<close>

definition RequestMethodSchema :: "string list" where
  "RequestMethodSchema = [''GET'', ''POST'', ''PUT'', ''PATCH'', ''DELETE'']"

definition parseEndpoint :: "string \<Rightarrow> js_error + string \<times> string" where
  "parseEndpoint endpoint =
     (case split_on CHR '' '' endpoint of
        [m, path] \<Rightarrow>
          if m \<in> set RequestMethodSchema then Inr (m, path)
          else Inl (ZodError ''invalid_enum_value'')
      | [] \<Rightarrow> Inl (ZodError ''too_small'')
      | [m] \<Rightarrow> Inl (ZodError ''too_small'')
      | m # path # others \<Rightarrow> Inl (ZodError ''too_big''))"

text \<open>
  The statements of \<open>request\<close> before it calls the measurer (lines 145 to 198 of
  \<open>part_003\<close>), in their order: the endpoint is looked up and split, the URL is built
  and the search encoded, the headers are merged, the credentials hook runs, the signal
  is checked, the body is built. The result is the endpoint's options and the request
  that the thunk will construct from \<open>url\<close> and \<open>init\<close>. The endpoint is a string by its
  type, so the first test of the source never fails here.
\<close>

definition buildRequest ::
  "platform \<Rightarrow> configuration \<Rightarrow> string option \<Rightarrow> string \<Rightarrow> request_options
     \<Rightarrow> js_error + endpoint_options \<times> http_request" where
  "buildRequest pf configuration token endpoint options =
     (case map_of (endpoints configuration) endpoint of
        None \<Rightarrow>
          Inl (ReferenceError (''Missing endpoint '' @ dquote @ endpoint @ dquote
                 @ ''. You can add it to your API client configuration.''))
      | Some route \<Rightarrow>
     (case parseEndpoint endpoint of
        Inl e \<Rightarrow> Inl e
      | Inr (m, path) \<Rightarrow>
     (case getURL pf configuration path
             (case optVariables options of None \<Rightarrow> None | Some vs \<Rightarrow> varParams vs) of
        Inl e \<Rightarrow> Inl e
      | Inr url0 \<Rightarrow>
     (case (case optVariables options of
              None \<Rightarrow> Inr url0
            | Some vs \<Rightarrow>
                (case varSearch vs of
                   None \<Rightarrow> Inr url0
                 | Some search \<Rightarrow> getSearchParams route url0 search)) of
        Inl e \<Rightarrow> Inl e
      | Inr url1 \<Rightarrow>
     (let headers0 =
            mergeHeaders
              [fetchHeaders configuration, (case optHeaders options of None \<Rightarrow> [] | Some h \<Rightarrow> h)]
      in
     (case (case credentials configuration of
              None \<Rightarrow> Inr (url1, headers0)
            | Some hook \<Rightarrow> hook url1 headers0 token) of
        Inl e \<Rightarrow> Inl e
      | Inr (url2, headers1) \<Rightarrow>
     (if (case optSignal options of None \<Rightarrow> False | Some s \<Rightarrow> aborted s)
      then Inl (DOMException ''Aborted'' ''AbortError'')
      else
     (case (if m \<noteq> ''GET''
            then (case optVariables options of
                    None \<Rightarrow> Inr None
                  | Some vs \<Rightarrow>
                      (case varBody vs of
                         None \<Rightarrow> Inr None
                       | Some b \<Rightarrow> getBody route b))
            else Inr None) of
        Inl e \<Rightarrow> Inl e
      | Inr body \<Rightarrow>
          Inr (route,
               \<lparr>requestURL = url2, requestMethod = m, requestHeaders = headers1,
                requestSignal = optSignal options, requestBody = body\<rparr>)))))))))"

text \<open>
  The thunk that \<open>request\<close> hands to the measurer (lines 202 to 252): it sends the
  request, checks the content type, reads and parses the body, and maps the status.
\<close>

definition thunk :: "platform \<Rightarrow> string \<Rightarrow> endpoint_options \<Rightarrow> http_request \<Rightarrow> outcome" where
  "thunk pf endpoint route request =
     (case fetch pf request of
        Inl e \<Rightarrow> (Inl e, [Dispatched request])
      | Inr response \<Rightarrow>
          if \<not> (case contentType response of None \<Rightarrow> False | Some ct \<Rightarrow> js_includes ct ''json'')
          then (Inl (TypeError (''The endpoint '' @ dquote @ endpoint @ dquote
                       @ '' returned a non-JSON response.'')),
                [Dispatched request])
          else
            (case parse (bodyText response) of
               Inl e \<Rightarrow>
                 (Inl (Error (''The endpoint '' @ dquote @ endpoint @ dquote
                         @ '' returned an invalid JSON response.'')),
                  [Dispatched request, BodyRead])
             | Inr body \<Rightarrow>
                 (if 200 \<le> status response \<and> status response < 300 then
                    (case failureSchema route of
                       None \<Rightarrow> successSchema route body
                     | Some FailureSchema \<Rightarrow>
                         (case successSchema route body of
                            Inl e \<Rightarrow> Inl e
                          | Inr d \<Rightarrow> Inr (JObj [(''status'', JStr ''success''), (''data'', d)])))
                  else if 400 \<le> status response \<and> status response < 500 then
                    (case failureSchema route of
                       None \<Rightarrow>
                         Inl (ReferenceError (''Missing '' @ dquote @ ''failure'' @ dquote
                                @ '' schema for endpoint '' @ dquote @ endpoint @ dquote @ ''.''))
                     | Some FailureSchema \<Rightarrow>
                         (case FailureSchema body of
                            Inl e \<Rightarrow> Inl e
                          | Inr d \<Rightarrow>
                              Inr (JObj [(''status'', JStr ''failure''), (''data'', d),
                                         (''code'', JNum (status response))])))
                  else
                    Inl (Error (''The endpoint '' @ dquote @ endpoint @ dquote @ '' throw a ''
                           @ show_int (status response) @ '' code.'')),
                  [Dispatched request, BodyRead])))"

text \<open>
  \<open>request(endpoint, options)\<close> of a client constructed with \<open>token\<close>: an error before
  the measurer is called leaves no event.
\<close>

definition request ::
  "platform \<Rightarrow> configuration \<Rightarrow> string option \<Rightarrow> string \<Rightarrow> request_options \<Rightarrow> outcome" where
  "request pf configuration token endpoint options =
     (case buildRequest pf configuration token endpoint options of
        Inl e \<Rightarrow> (Inl e, [])
      | Inr (route, req) \<Rightarrow>
          (case measureHook configuration of
             None \<Rightarrow> measure_default endpoint (thunk pf endpoint route req)
           | Some measurer \<Rightarrow> measurer endpoint (thunk pf endpoint route req)))"

section \<open>Notions of the specification\<close>

subsection \<open>Path templates\<close>

text \<open>A parameter is absent when its entry is \<open>null\<close>, \<open>undefined\<close> or not there.\<close>

definition missing :: "(string \<times> jsval) list \<Rightarrow> string \<Rightarrow> bool" where
  "missing ps key = nullish (prop_get ps key)"

text \<open>
  The segments of a template, as the specification's algorithm has them: a trailing bare
  \<open>*\<close> is read as \<open>/*\<close>, and the template is split on \<open>/\<close> (every single slash
  separates; the code splits on runs of slashes).
\<close>

definition templateSegments :: "string \<Rightarrow> string list" where
  "templateSegments template = split_on CHR ''/'' (normalizeSplat template)"

text \<open>The required named parameters of a template: its segments \<open>:name\<close>, in order.\<close>

definition requiredKey :: "string \<Rightarrow> string list" where
  "requiredKey segment = (case keyMatch segment of Some (key, False) \<Rightarrow> [key] | _ \<Rightarrow> [])"

definition requiredParams :: "string \<Rightarrow> string list" where
  "requiredParams template = concat (map requiredKey (templateSegments template))"

text \<open>
  What a segment resolves to when nothing is missing: the wildcard, only as the last
  segment, to the entry \<open>*\<close>; a named parameter to its entry, and to the empty string
  when the entry is absent; any other segment to itself without a trailing \<open>?\<close>.
\<close>

definition substitute :: "(string \<times> jsval) list \<Rightarrow> bool \<Rightarrow> string \<Rightarrow> jsval" where
  "substitute ps isLast segment =
     (if isLast \<and> segment = ''*'' then prop_get ps ''*''
      else
        (case keyMatch segment of
           Some (key, optional) \<Rightarrow> if missing ps key then JStr [] else prop_get ps key
         | None \<Rightarrow> JStr (stripOptionalMarker segment)))"

fun substituteAll :: "(string \<times> jsval) list \<Rightarrow> string list \<Rightarrow> jsval list" where
  "substituteAll ps [] = []"
| "substituteAll ps (segment # rest) = substitute ps (rest = []) segment # substituteAll ps rest"

text \<open>
  What a resolved segment contributes to the joined path: \<open>null\<close> and \<open>undefined\<close> nothing,
  any other value its string (a number is cast to its string when the segments are
  joined).
\<close>

definition render :: "jsval \<Rightarrow> string" where
  "render v = (if nullish v then [] else js_String v)"

text \<open>
  The expansion of the specification: the segments resolved in template order, the empty
  results dropped, the rest joined with \<open>/\<close>, between the leading and the trailing slash
  of the original template.
\<close>

definition expand :: "string \<Rightarrow> (string \<times> jsval) list \<Rightarrow> string" where
  "expand template ps =
     (if startsWith template ''/'' then ''/'' else [])
       @ join ''/'' (filter (\<lambda>s. s \<noteq> []) (map render (substituteAll ps (templateSegments template))))
       @ (if endsWith template ''/'' then ''/'' else [])"

text \<open>
  The filter of the code, \<open>!!segment\<close>, keeps a resolved value exactly when the value is
  truthy. It agrees with dropping empty results on the values that are falsy exactly when
  they render empty: strings, \<open>null\<close>, \<open>undefined\<close>, \<open>true\<close>, the numbers other than zero.
\<close>

definition filterAgrees :: "jsval \<Rightarrow> bool" where
  "filterAgrees v = (truthy v \<longleftrightarrow> render v \<noteq> [])"

text \<open>A segment of a path that splitting on \<open>/\<close> gives back: not empty, without a slash.\<close>

definition plainSegment :: "string \<Rightarrow> bool" where
  "plainSegment s = (s \<noteq> [] \<and> CHR ''/'' \<notin> set s)"

text \<open>
  What a list of segments contributes, segment by segment, when each contribution may
  depend on the segment being the last.
\<close>

fun flat :: "(bool \<Rightarrow> string \<Rightarrow> 'a list) \<Rightarrow> string list \<Rightarrow> 'a list" where
  "flat g [] = []"
| "flat g (s # rest) = g (rest = []) s @ flat g rest"

subsection \<open>Calls of \<open>request\<close>\<close>

text \<open>
  The contract of the measurement hook: it returns what the thunk returns, unchanged.
  The default hook does; a configured hook is assumed to.
\<close>

definition propagates :: "configuration \<Rightarrow> bool" where
  "propagates cfg =
     (case measureHook cfg of None \<Rightarrow> True | Some measurer \<Rightarrow> \<forall>key fn. measurer key fn = fn)"

text \<open>
  The body variable of a call, and the same call without its body variable or without
  its cancellation handle.
\<close>

definition bodyVariable :: "request_options \<Rightarrow> jsval option" where
  "bodyVariable options = (case optVariables options of None \<Rightarrow> None | Some vs \<Rightarrow> varBody vs)"

definition withoutBody :: "request_options \<Rightarrow> request_options" where
  "withoutBody options =
     options\<lparr>optVariables := map_option (\<lambda>vs. vs\<lparr>varBody := None\<rparr>) (optVariables options)\<rparr>"

definition withoutSignal :: "request_options \<Rightarrow> request_options" where
  "withoutSignal options = options\<lparr>optSignal := None\<rparr>"



subsection \<open>A client for the examples\<close>

text \<open>
  Two schemas, one that accepts every value as it is and one that rejects every value;
  a platform that resolves a relative reference by appending it to the base and whose
  transport answers every request with one fixed response.
\<close>

definition acceptAny :: schema where
  "acceptAny v = Inr v"

definition rejectAny :: schema where
  "rejectAny v = Inl (ZodError ''invalid_type'')"

definition resolveAgainst :: "string \<Rightarrow> string \<Rightarrow> js_error + url" where
  "resolveAgainst input base = Inr \<lparr>href = base @ input, searchParams = []\<rparr>"

definition respondWith :: "response \<Rightarrow> http_request \<Rightarrow> js_error + response" where
  "respondWith r req = Inr r"

definition examplePlatform :: "response \<Rightarrow> platform" where
  "examplePlatform r = \<lparr>newURL = resolveAgainst, fetch = respondWith r\<rparr>"

text \<open>
  Responses: JSON with a status and a body, and the plain text of a failing server.
\<close>

definition jsonResponse :: "int \<Rightarrow> jsval \<Rightarrow> response" where
  "jsonResponse code v =
     \<lparr>status = code, contentType = Some ''application/json'', bodyText = JSONText v\<rparr>"

definition plainResponse :: response where
  "plainResponse =
     \<lparr>status = 200, contentType = Some ''text/plain'', bodyText = NotJSON ''Internal server error''\<rparr>"

text \<open>
  The endpoints \<open>GET /users/:userId\<close>, with a choice of params and failure schema,
  and \<open>POST /users\<close>, which declares a body schema; a route with a search schema.
\<close>

definition userRoute :: "slot \<Rightarrow> schema option \<Rightarrow> endpoint_options" where
  "userRoute ps fs =
     \<lparr>paramsSchema = ps, searchSchema = Absent, bodySchema = Absent,
      successSchema = acceptAny, failureSchema = fs\<rparr>"

definition createRoute :: endpoint_options where
  "createRoute =
     \<lparr>paramsSchema = Absent, searchSchema = Absent, bodySchema = Schema acceptAny,
      successSchema = acceptAny, failureSchema = None\<rparr>"

definition searchRoute :: endpoint_options where
  "searchRoute =
     \<lparr>paramsSchema = Absent, searchSchema = Schema acceptAny, bodySchema = Absent,
      successSchema = acceptAny, failureSchema = None\<rparr>"

definition exampleConfiguration :: "slot \<Rightarrow> schema option \<Rightarrow> configuration" where
  "exampleConfiguration ps fs =
     \<lparr>baseURL = ''http://example.com/'',
      endpoints = [(''GET /users/:userId'', userRoute ps fs), (''POST /users'', createRoute)],
      fetchHeaders = [], measureHook = None, credentials = None\<rparr>"

text \<open>
  Calls: the user \<open>userId\<close>, with or without a signal and a body variable, and the
  request it builds; the creation of a user, and the request it builds; a search.
\<close>

definition userOptions :: "jsval \<Rightarrow> abort_signal option \<Rightarrow> jsval option \<Rightarrow> request_options" where
  "userOptions userId sig b =
     \<lparr>optVariables = Some \<lparr>varParams = Some [(''userId'', userId)], varSearch = None, varBody = b\<rparr>,
      optHeaders = None, optSignal = sig\<rparr>"

definition userRequest :: "string \<Rightarrow> http_request" where
  "userRequest userId =
     \<lparr>requestURL = \<lparr>href = ''http://example.com/users/'' @ userId, searchParams = []\<rparr>,
      requestMethod = ''GET'', requestHeaders = [], requestSignal = None, requestBody = None\<rparr>"

definition createOptions :: request_options where
  "createOptions =
     \<lparr>optVariables = Some \<lparr>varParams = None, varSearch = None,
                            varBody = Some (JObj [(''firstName'', JStr ''Ada'')])\<rparr>,
      optHeaders = None, optSignal = None\<rparr>"

definition createRequest :: http_request where
  "createRequest =
     \<lparr>requestURL = \<lparr>href = ''http://example.com/users'', searchParams = []\<rparr>,
      requestMethod = ''POST'', requestHeaders = [], requestSignal = None,
      requestBody = Some (JSONText (JObj [(''first_name'', JStr ''Ada'')]))\<rparr>"

definition exampleSearch :: jsval where
  "exampleSearch =
     JObj [(''id'', JArr [JNum 1, JNum 2, JNum 3]),
           (''filter'', JObj [(''color'', JStr ''red''), (''quantity'', JNum 1)]),
           (''page'', JNum 2), (''active'', JBool True), (''name'', JStr ''Ada''),
           (''nothing'', JNull), (''other'', JUndefined)]"

subsection \<open>Keys and values of the codec\<close>

text \<open>
  A camelCase key: ASCII letters and digits, the first a small letter, no two capitals
  next to each other (a name such as \<open>userID\<close>, where the casing of an acronym is lost in
  snake case, is not one).
\<close>

fun no_adjacent_capitals :: "string \<Rightarrow> bool" where
  "no_adjacent_capitals (a # b # rest) = (\<not> (is_upper a \<and> is_upper b) \<and> no_adjacent_capitals (b # rest))"
| "no_adjacent_capitals s = True"

definition camelCaseKey :: "string \<Rightarrow> bool" where
  "camelCaseKey k = (k \<noteq> [] \<and> is_lower (hd k) \<and> list_all is_alnum k \<and> no_adjacent_capitals k)"

text \<open>
  A JSON-compatible value: no \<open>undefined\<close> anywhere in it, and the keys of every object
  distinct, as the properties of an object are.
\<close>

fun jsonCompatible :: "jsval \<Rightarrow> bool" where
  "jsonCompatible JUndefined = False"
| "jsonCompatible (JArr xs) = list_all jsonCompatible xs"
| "jsonCompatible (JObj es) = (distinct (map fst es) \<and> list_all (\<lambda>(k, v). jsonCompatible v) es)"
| "jsonCompatible v = True"

text \<open>
  Every key of every object of a value, at any depth, has the property \<open>P\<close>.
\<close>

fun keysAll :: "(string \<Rightarrow> bool) \<Rightarrow> jsval \<Rightarrow> bool" where
  "keysAll P (JArr xs) = list_all (keysAll P) xs"
| "keysAll P (JObj es) = list_all (\<lambda>(k, v). P k \<and> keysAll P v) es"
| "keysAll P v = True"

definition camelCaseKeys :: "jsval \<Rightarrow> bool" where
  "camelCaseKeys x = keysAll camelCaseKey x"

text \<open>
  The snake case of a camelCase key: an underscore before every capital, all in small
  letters; and the same with the capitals kept.
\<close>

definition snake :: "string \<Rightarrow> string" where
  "snake k = concat (map (\<lambda>c. if is_upper c then [CHR ''_'', toLowerCase_char c] else [c]) k)"

definition capitalsMarked :: "string \<Rightarrow> string" where
  "capitalsMarked k = concat (map (\<lambda>c. if is_upper c then [CHR ''_'', c] else [c]) k)"

text \<open>
  The words of a camelCase key behind its first: each starts at a capital and runs to
  the next, and is taken in small letters, as it stands in the snake case of the key.
  A key is free of inherited names when none of these words names a property that every
  object inherits.
\<close>

fun capitalWords :: "string \<Rightarrow> string list" where
  "capitalWords [] = []"
| "capitalWords (c # k) =
     (if is_upper c then [toLowerCase_char c # takeWhile (\<lambda>x. \<not> is_upper x) k] else [])
       @ capitalWords k"

definition inheritedFree :: "string \<Rightarrow> bool" where
  "inheritedFree k = list_all (\<lambda>w. map_of objectPrototype w = None) (capitalWords k)"

definition stableKey :: "string \<Rightarrow> bool" where
  "stableKey k = (camelCaseKey k \<and> inheritedFree k)"

section \<open>The path templater expands templates\<close>

subsection \<open>Splitting on slashes and on runs of slashes\<close>

lemma split_on_nonempty: "split_on sep p \<noteq> []"
  by (induction p) (auto simp: Let_def)

lemma split_slashes_nonempty: "split_slashes p \<noteq> []"
  by (induction p) (auto simp: Let_def split: list.splits)

lemma flat_cons_hd: "xs \<noteq> [] \<Longrightarrow> flat g xs = g (tl xs = []) (hd xs) @ flat g (tl xs)"
  by (cases xs) auto

lemma split_slashes_slash:
  "split_slashes (CHR ''/'' # cs) =
     (if cs \<noteq> [] \<and> hd cs = CHR ''/'' then split_slashes cs else [] # split_slashes cs)"
  by (cases cs) auto

lemma split_on_slash: "split_on CHR ''/'' (CHR ''/'' # cs) = [] # split_on CHR ''/'' cs"
  by simp

lemma split_on_other:
  "c \<noteq> CHR ''/'' \<Longrightarrow> split_on CHR ''/'' (c # cs)
     = (c # hd (split_on CHR ''/'' cs)) # tl (split_on CHR ''/'' cs)"
  by (simp add: Let_def)

lemma split_slashes_other:
  "c \<noteq> CHR ''/'' \<Longrightarrow> split_slashes (c # cs) = (c # hd (split_slashes cs)) # tl (split_slashes cs)"
  by (simp add: Let_def)

lemma split_invariant:
  assumes g: "\<And>b. g b [] = []"
  shows "hd (split_on CHR ''/'' p) = hd (split_slashes p)
       \<and> (tl (split_on CHR ''/'' p) = [] \<longleftrightarrow> tl (split_slashes p) = [])
       \<and> flat g (tl (split_on CHR ''/'' p)) = flat g (tl (split_slashes p))"
proof (induction p)
  case Nil
  then show ?case by simp
next
  case (Cons c cs)
  let ?A = "split_on CHR ''/'' cs" and ?B = "split_slashes cs"
  have A: "flat g ?A = flat g ?B"
    using Cons flat_cons_hd [OF split_on_nonempty, of g "CHR ''/''" cs]
      flat_cons_hd [OF split_slashes_nonempty, of g cs] by simp
  show ?case
  proof (cases "c = CHR ''/''")
    case False
    show ?thesis
      unfolding split_on_other [OF False] split_slashes_other [OF False]
      using Cons.IH by simp
  next
    case True
    show ?thesis
    proof (cases "cs \<noteq> [] \<and> hd cs = CHR ''/''")
      case False
      have "split_slashes (CHR ''/'' # cs) = [] # ?B"
        using False split_slashes_slash [of cs] by simp
      then show ?thesis
        unfolding True split_on_slash
        using A split_on_nonempty [of "CHR ''/''" cs] split_slashes_nonempty [of cs]
        by simp
    next
      case run: True
      then have "?A = [] # split_on CHR ''/'' (tl cs)"
        by (cases cs) auto
      then have hdA: "hd ?A = []" and tlA: "tl ?A \<noteq> []"
        using split_on_nonempty [of "CHR ''/''" "tl cs"] by auto
      have "flat g ?A = flat g (tl ?A)"
        using flat_cons_hd [OF split_on_nonempty, of g "CHR ''/''" cs] hdA g by simp
      moreover have "split_slashes (CHR ''/'' # cs) = ?B"
        using run split_slashes_slash [of cs] by simp
      ultimately show ?thesis
        unfolding True split_on_slash
        using Cons.IH hdA tlA split_on_nonempty [of "CHR ''/''" cs]
        by simp
    qed
  qed
qed

lemma flat_split:
  assumes g: "\<And>b. g b [] = []"
  shows "flat g (split_on CHR ''/'' p) = flat g (split_slashes p)"
  using split_invariant [where g = g and p = p, OF g]
    flat_cons_hd [OF split_on_nonempty, of g "CHR ''/''" p]
    flat_cons_hd [OF split_slashes_nonempty, of g p]
  by simp

lemma keyMatch_Nil: "keyMatch [] = None"
  by (simp add: keyMatch_def)

lemma keyMatch_star: "keyMatch ''*'' = None"
  by (simp add: keyMatch_def)

lemma requiredKey_Nil: "requiredKey [] = []"
  by (simp add: requiredKey_def keyMatch_Nil)

lemma resolveSegment_cases:
  "resolveSegment ps b segment =
     (case find (missing ps) (requiredKey segment) of
        Some key \<Rightarrow> Inl (Error (''Missing '' @ dquote @ '':'' @ key @ dquote @ '' param''))
      | None \<Rightarrow> Inr (substitute ps b segment))"
  by (auto simp: resolveSegment_def substitute_def requiredKey_def missing_def keyMatch_star Let_def
      split: option.splits bool.splits)

lemma mapSegments_cases:
  "mapSegments ps segs =
     (case find (missing ps) (concat (map requiredKey segs)) of
        Some key \<Rightarrow> Inl (Error (''Missing '' @ dquote @ '':'' @ key @ dquote @ '' param''))
      | None \<Rightarrow> Inr (substituteAll ps segs))"
proof (induction segs)
  case Nil
  then show ?case by simp
next
  case (Cons segment rest)
  have one: "requiredKey segment = [] \<or> (\<exists>k. requiredKey segment = [k])"
    by (auto simp: requiredKey_def split: option.splits bool.splits)
  show ?case
    using one Cons.IH
    by (auto simp: resolveSegment_cases split: option.splits sum.splits if_splits)
qed

lemma normalizeSplat_starts: "startsWith (normalizeSplat t) ''/'' = startsWith t ''/''"
proof (cases t)
  case Nil
  then show ?thesis by (simp add: normalizeSplat_def startsWith_def endsWith_def)
next
  case (Cons c cs)
  then show ?thesis
    by (cases cs) (auto simp: normalizeSplat_def startsWith_def endsWith_def)
qed

lemma endsWith_single: "endsWith s [c] = (s \<noteq> [] \<and> last s = c)"
proof (cases s rule: rev_cases)
  case Nil
  then show ?thesis by (simp add: endsWith_def)
next
  case (snoc ys y)
  then show ?thesis by (auto simp: endsWith_def)
qed

lemma normalizeSplat_ends: "endsWith (normalizeSplat t) ''/'' = endsWith t ''/''"
  by (auto simp: normalizeSplat_def endsWith_single)

lemma required_flat: "concat (map requiredKey L) = flat (\<lambda>b. requiredKey) L"
  by (induction L) auto

lemma substituted_flat:
  "filter truthy (substituteAll ps L) = flat (\<lambda>b s. filter truthy [substitute ps b s]) L"
  by (induction L) auto

lemma substitute_Nil: "\<not> truthy (substitute ps b [])"
  by (simp add: substitute_def keyMatch_Nil stripOptionalMarker_def)

lemma requiredParams_code:
  "requiredParams t = concat (map requiredKey (split_slashes (normalizeSplat t)))"
  unfolding requiredParams_def templateSegments_def required_flat
  by (rule flat_split) (simp add: requiredKey_Nil)

lemma substituted_code:
  "filter truthy (substituteAll ps (templateSegments t))
     = filter truthy (substituteAll ps (split_slashes (normalizeSplat t)))"
  unfolding templateSegments_def substituted_flat
  by (rule flat_split) (simp add: substitute_Nil)

lemma generatePath_cases:
  "generatePath t ps =
     (case find (missing ps) (requiredParams t) of
        Some key \<Rightarrow> Inl (Error (''Missing '' @ dquote @ '':'' @ key @ dquote @ '' param''))
      | None \<Rightarrow>
          Inr ((if startsWith t ''/'' then ''/'' else [])
                 @ join ''/'' (map js_String (filter truthy (substituteAll ps (templateSegments t))))
                 @ (if endsWith t ''/'' then ''/'' else [])))"
  by (simp add: generatePath_def Let_def mapSegments_cases requiredParams_code
      substituted_code normalizeSplat_starts normalizeSplat_ends split: option.splits)

lemma truthy_render: "truthy v \<Longrightarrow> render v = js_String v"
  by (cases v) (auto simp: render_def nullish_def)

lemma kept_rendered:
  "list_all filterAgrees vs
     \<Longrightarrow> map js_String (filter truthy vs) = filter (\<lambda>s. s \<noteq> []) (map render vs)"
  by (induction vs) (auto simp: filterAgrees_def truthy_render)

lemma filterAgrees_values:
  "filterAgrees (JStr s)" "filterAgrees JNull" "filterAgrees JUndefined"
  "filterAgrees (JBool True)" "filterAgrees (JObj es)"
  by (simp_all add: filterAgrees_def render_def nullish_def)

lemma show_nat_nonempty: "show_nat n \<noteq> []"
  by (subst show_nat.simps) simp

lemma filterAgrees_number: "filterAgrees (JNum n) \<longleftrightarrow> n \<noteq> 0"
  by (simp add: filterAgrees_def render_def nullish_def show_int_def show_nat_nonempty)

lemma find_None_list_ex: "(find P xs = None) = (\<not> list_ex P xs)"
  by (auto simp: find_None_iff list_ex_iff)

lemma split_on_append:
  "sep \<notin> set s \<Longrightarrow> split_on sep (s @ r) = (s @ hd (split_on sep r)) # tl (split_on sep r)"
  using split_on_nonempty [of sep r]
  by (induction s) (auto simp: Let_def)

lemma split_join_post:
  assumes "post = [] \<or> post = ''/''"
  shows "list_all plainSegment ss \<Longrightarrow>
    filter (\<lambda>s. s \<noteq> []) (split_on CHR ''/'' (join ''/'' ss @ post)) = ss"
proof (induction ss)
  case Nil
  then show ?case using assms by auto
next
  case (Cons x xs)
  note stepIH = Cons.IH and stepPrems = Cons.prems
  show ?case
  proof (cases xs)
    case Nil
    then show ?thesis using assms stepPrems by (auto simp: plainSegment_def split_on_append)
  next
    case (Cons y ys)
    have "split_on CHR ''/'' (x @ CHR ''/'' # (join ''/'' (y # ys) @ post))
            = x # split_on CHR ''/'' (join ''/'' (y # ys) @ post)"
      using stepPrems by (simp add: plainSegment_def split_on_append)
    then show ?thesis
      using Cons stepIH stepPrems by (simp add: plainSegment_def)
  qed
qed

lemma split_join:
  assumes "pre = [] \<or> pre = ''/''" and "post = [] \<or> post = ''/''"
    and "list_all plainSegment ss"
  shows "filter (\<lambda>s. s \<noteq> []) (split_on CHR ''/'' (pre @ join ''/'' ss @ post)) = ss"
  using assms(1) split_join_post [OF assms(2) assms(3)] by auto

lemma resolveSegment_optional:
  "keyMatch segment = Some (key, True) \<Longrightarrow> missing ps key
     \<Longrightarrow> resolveSegment ps isLast segment = Inr (JStr [])"
  by (auto simp: resolveSegment_def missing_def Let_def keyMatch_star)

lemma startsWith_append: "startsWith (''/'' @ s) ''/''"
  by (simp add: startsWith_def)

lemma endsWith_append: "endsWith (s @ ''/'') ''/''"
  by (simp add: endsWith_single)

text \<open>
  What \<open>generatePath\<close> does, against the expansion of the specification. It fails exactly
  when a required named parameter \<open>:name\<close> of the template has a \<open>null\<close>, \<open>undefined\<close> or
  absent entry, with the missing-parameter error that names the first such parameter. An
  absent optional parameter \<open>:name?\<close> resolves to the empty string, which the filter
  drops. When every required parameter is present and the filter agrees with dropping
  empty results on every resolved value, the result is the expansion; the expansion
  keeps a leading and a trailing slash of the template, and when its segments are plain,
  splitting it on \<open>/\<close> gives them back in order.
\<close>

lemma generatePath_expands_template:
  "((\<exists>e. generatePath template ps = Inl e) \<longleftrightarrow> list_ex (missing ps) (requiredParams template))
   \<and> (\<forall>e. generatePath template ps = Inl e \<longrightarrow>
         (\<exists>key. find (missing ps) (requiredParams template) = Some key
            \<and> e = Error (''Missing '' @ dquote @ '':'' @ key @ dquote @ '' param'')))
   \<and> (keyMatch segment = Some (name, True) \<and> missing ps name \<longrightarrow>
         resolveSegment ps isLast segment = Inr (JStr []) \<and> filter truthy [JStr []] = [])
   \<and> (\<not> list_ex (missing ps) (requiredParams template)
         \<and> list_all filterAgrees (substituteAll ps (templateSegments template)) \<longrightarrow>
         generatePath template ps = Inr (expand template ps))
   \<and> (startsWith template ''/'' \<longrightarrow> startsWith (expand template ps) ''/'')
   \<and> (endsWith template ''/'' \<longrightarrow> endsWith (expand template ps) ''/'')
   \<and> (list_all plainSegment
         (filter (\<lambda>s. s \<noteq> []) (map render (substituteAll ps (templateSegments template)))) \<longrightarrow>
       filter (\<lambda>s. s \<noteq> []) (split_on CHR ''/'' (expand template ps))
         = filter (\<lambda>s. s \<noteq> []) (map render (substituteAll ps (templateSegments template))))"
proof -
  have fails: "(\<exists>e. generatePath template ps = Inl e) \<longleftrightarrow> list_ex (missing ps) (requiredParams template)"
    using find_None_list_ex [of "missing ps" "requiredParams template"]
    by (auto simp: generatePath_cases split: option.splits)
  have names: "\<forall>e. generatePath template ps = Inl e \<longrightarrow>
         (\<exists>key. find (missing ps) (requiredParams template) = Some key
            \<and> e = Error (''Missing '' @ dquote @ '':'' @ key @ dquote @ '' param''))"
    by (auto simp: generatePath_cases split: option.splits)
  have optional: "keyMatch segment = Some (name, True) \<and> missing ps name \<longrightarrow>
         resolveSegment ps isLast segment = Inr (JStr []) \<and> filter truthy [JStr []] = []"
    using resolveSegment_optional by simp
  have succeeds: "\<not> list_ex (missing ps) (requiredParams template)
         \<and> list_all filterAgrees (substituteAll ps (templateSegments template)) \<longrightarrow>
         generatePath template ps = Inr (expand template ps)"
    using find_None_list_ex [of "missing ps" "requiredParams template"]
      kept_rendered [of "substituteAll ps (templateSegments template)"]
    by (auto simp: generatePath_cases expand_def split: option.splits)
  have leading: "startsWith template ''/'' \<longrightarrow> startsWith (expand template ps) ''/''"
    using startsWith_append by (simp add: expand_def)
  have trailing: "endsWith template ''/'' \<longrightarrow> endsWith (expand template ps) ''/''"
    using endsWith_append [of "_ @ _"] by (simp add: expand_def)
  have splits: "list_all plainSegment
         (filter (\<lambda>s. s \<noteq> []) (map render (substituteAll ps (templateSegments template)))) \<longrightarrow>
       filter (\<lambda>s. s \<noteq> []) (split_on CHR ''/'' (expand template ps))
         = filter (\<lambda>s. s \<noteq> []) (map render (substituteAll ps (templateSegments template)))"
    unfolding expand_def by (intro impI split_join) auto
  show ?thesis
    using fails names optional succeeds leading trailing splits by blast
qed

text \<open>
  The template \<open>/users/:userId/:tab?/\<close>: with \<open>userId\<close> given and \<open>tab\<close> absent, and with
  no parameter at all; the test of the repository, which expects \<open>/users/1\<close> for the
  number \<open>1\<close>.
\<close>

lemma generatePath_examples:
  "generatePath ''/users/:userId/:tab?/'' [(''userId'', JNum 123)] = Inr ''/users/123/''
   \<and> generatePath ''/users/:userId/:tab?/'' []
        = Inl (Error (''Missing '' @ dquote @ '':userId'' @ dquote @ '' param''))
   \<and> generatePath ''/users/:userId'' [(''userId'', JNum 1)] = Inr ''/users/1''
   \<and> expand ''/users/:userId'' [(''userId'', JNum 1)] = ''/users/1''"
  by code_simp

text \<open>
  Claim C5 fails on the code where a required parameter is present and falsy. The user
  with the number \<open>0\<close>: the parameter is not missing, and the expansion of the
  specification, where a number is cast to its string, is \<open>/users/0\<close>; the code drops
  the segment, because its filter for empty segments, \<open>!!segment\<close>, takes \<open>0\<close> for one,
  and returns \<open>/users\<close>.
\<close>

theorem generatePath_drops_zero:
  "generatePath ''/users/:userId'' [(''userId'', JNum 0)] = Inr ''/users''
   \<and> \<not> list_ex (missing [(''userId'', JNum 0)]) (requiredParams ''/users/:userId'')
   \<and> expand ''/users/:userId'' [(''userId'', JNum 0)] = ''/users/0''"
  by code_simp

lemma substituteAll_snoc:
  "substituteAll ps (xs @ [y]) = map (substitute ps False) xs @ [substitute ps True y]"
  by (induction xs) auto

lemma split_on_snoc: "split_on sep (p @ [sep]) = split_on sep p @ [[]]"
  using split_on_nonempty [of sep]
  by (induction p) (auto simp: Let_def hd_append)

lemma last_split_on_endsWith:
  assumes "endsWith p ''/''"
  shows "last (split_on CHR ''/'' p) = []"
proof -
  from assms have "p = butlast p @ ''/''"
    using append_butlast_last_id [of p] by (simp add: endsWith_single)
  then have "split_on CHR ''/'' p = split_on CHR ''/'' (butlast p) @ [[]]"
    using split_on_snoc [of "CHR ''/''" "butlast p"] by simp
  then show ?thesis by simp
qed

lemma requiredKey_word: "key \<in> set (requiredKey segment) \<Longrightarrow> list_all is_word_char key"
  by (auto simp: requiredKey_def keyMatch_def Let_def split: option.splits bool.splits list.splits if_splits)

lemma star_not_required: "''*'' \<notin> set (requiredParams template)"
proof
  assume "''*'' \<in> set (requiredParams template)"
  then obtain segment where "''*'' \<in> set (requiredKey segment)"
    by (auto simp: requiredParams_def)
  then have "list_all is_word_char ''*''"
    by (rule requiredKey_word)
  then show False
    by (simp add: is_word_char_def is_upper_def is_lower_def is_digit_def)
qed

text \<open>
  Claim C9. For a template whose last segment is the wildcard \<open>*\<close> and parameters
  without an entry \<open>*\<close> (or with \<open>null\<close> or \<open>undefined\<close> there), \<open>generatePath\<close> fails only
  when a required named parameter is missing, never for the wildcard, which is no
  required parameter; otherwise the result is built from the other segments alone: the
  wildcard resolves to an empty value and is dropped.
\<close>

theorem generatePath_wildcard_absent:
  assumes "last (templateSegments template) = ''*''" and "missing ps ''*''"
  shows "generatePath template ps =
           (case find (missing ps) (requiredParams template) of
              Some key \<Rightarrow> Inl (Error (''Missing '' @ dquote @ '':'' @ key @ dquote @ '' param''))
            | None \<Rightarrow>
                Inr ((if startsWith template ''/'' then ''/'' else [])
                       @ join ''/'' (map js_String (filter truthy
                           (map (substitute ps False) (butlast (templateSegments template)))))))
         \<and> ''*'' \<notin> set (requiredParams template)"
proof -
  let ?segs = "templateSegments template"
  have ne: "?segs \<noteq> []"
    by (simp add: templateSegments_def split_on_nonempty)
  then have "?segs = butlast ?segs @ [''*'']"
    using assms(1) append_butlast_last_id [of ?segs] by simp
  then have "substituteAll ps ?segs
               = map (substitute ps False) (butlast ?segs) @ [substitute ps True ''*'']"
    using substituteAll_snoc [of ps "butlast ?segs" "''*''"] by simp
  moreover have "\<not> truthy (substitute ps True ''*'')"
    using assms(2) by (auto simp: substitute_def missing_def nullish_def)
  ultimately have kept: "filter truthy (substituteAll ps ?segs)
                           = filter truthy (map (substitute ps False) (butlast ?segs))"
    by simp
  have "\<not> endsWith template ''/''"
  proof
    assume "endsWith template ''/''"
    then have "endsWith (normalizeSplat template) ''/''"
      by (simp add: normalizeSplat_ends)
    then have "last ?segs = []"
      unfolding templateSegments_def by (rule last_split_on_endsWith)
    then show False using assms(1) by simp
  qed
  then show ?thesis
    using kept star_not_required by (simp add: generatePath_cases split: option.splits)
qed

text \<open>The templates \<open>/files/:dir/*\<close> and \<open>/files*\<close> without a value for the wildcard.\<close>

theorem generatePath_wildcard_absent_witness:
  "generatePath ''/files/:dir/*'' [(''dir'', JStr ''docs'')] = Inr ''/files/docs''
   \<and> generatePath ''/files*'' [(''*'', JNull)] = Inr ''/files''"
proof -
  have "last (templateSegments ''/files/:dir/*'') = ''*''" by code_simp
  moreover have "missing [(''dir'', JStr ''docs'')] ''*''" by code_simp
  moreover have "find (missing [(''dir'', JStr ''docs'')]) (requiredParams ''/files/:dir/*'') = None"
    by code_simp
  moreover have "(if startsWith ''/files/:dir/*'' ''/'' then ''/'' else [])
                       @ join ''/'' (map js_String (filter truthy
                           (map (substitute [(''dir'', JStr ''docs'')] False) (butlast (templateSegments ''/files/:dir/*'')))))
        = ''/files/docs''" by code_simp
  moreover have "last (templateSegments ''/files*'') = ''*''" by code_simp
  moreover have "missing [(''*'', JNull)] ''*''" by code_simp
  moreover have "find (missing [(''*'', JNull)]) (requiredParams ''/files*'') = None"
    by code_simp
  moreover have "(if startsWith ''/files*'' ''/'' then ''/'' else [])
                       @ join ''/'' (map js_String (filter truthy
                           (map (substitute [(''*'', JNull)] False) (butlast (templateSegments ''/files*'')))))
        = ''/files''" by code_simp
  ultimately show ?thesis
    using generatePath_wildcard_absent [of "''/files/:dir/*''" "[(''dir'', JStr ''docs'')]"]
      generatePath_wildcard_absent [of "''/files*''" "[(''*'', JNull)]"]
    by simp
qed

section \<open>The request engine\<close>

subsection \<open>The stages of a call\<close>

lemma request_thunk:
  "propagates cfg \<Longrightarrow> buildRequest pf cfg token endpoint options = Inr (route, req)
     \<Longrightarrow> request pf cfg token endpoint options = thunk pf endpoint route req"
proof -
  assume p: "propagates cfg" and b: "buildRequest pf cfg token endpoint options = Inr (route, req)"
  show ?thesis
  proof (cases "measureHook cfg")
    case None
    then show ?thesis using b by (simp add: request_def measure_default_def)
  next
    case (Some measurer)
    then have "\<forall>key fn. measurer key fn = fn"
      using p by (simp add: propagates_def del: split_paired_All)
    then have "measurer endpoint (thunk pf endpoint route req) = thunk pf endpoint route req"
      by blast
    then show ?thesis using b Some by (simp add: request_def)
  qed
qed

lemma buildRequest_route:
  "buildRequest pf cfg token endpoint options = Inr (route, req)
     \<Longrightarrow> map_of (endpoints cfg) endpoint = Some route"
  by (auto simp: buildRequest_def Let_def split: option.splits sum.splits prod.splits if_splits)

lemma buildRequest_method:
  "buildRequest pf cfg token endpoint options = Inr (route, req)
     \<Longrightarrow> \<exists>path. parseEndpoint endpoint = Inr (requestMethod req, path)"
  by (auto simp: buildRequest_def Let_def split: option.splits sum.splits prod.splits if_splits)

lemma thunk_json:
  assumes "fetch pf req = Inr r" and "contentType r = Some ct" and "js_includes ct ''json''"
    and "parse (bodyText r) = Inr body"
  shows "thunk pf endpoint route req =
           ((if 200 \<le> status r \<and> status r < 300 then
               (case failureSchema route of
                  None \<Rightarrow> successSchema route body
                | Some FailureSchema \<Rightarrow>
                    (case successSchema route body of
                       Inl e \<Rightarrow> Inl e
                     | Inr d \<Rightarrow> Inr (JObj [(''status'', JStr ''success''), (''data'', d)])))
             else if 400 \<le> status r \<and> status r < 500 then
               (case failureSchema route of
                  None \<Rightarrow>
                    Inl (ReferenceError (''Missing '' @ dquote @ ''failure'' @ dquote
                           @ '' schema for endpoint '' @ dquote @ endpoint @ dquote @ ''.''))
                | Some FailureSchema \<Rightarrow>
                    (case FailureSchema body of
                       Inl e \<Rightarrow> Inl e
                     | Inr d \<Rightarrow>
                         Inr (JObj [(''status'', JStr ''failure''), (''data'', d),
                                    (''code'', JNum (status r))])))
             else
               Inl (Error (''The endpoint '' @ dquote @ endpoint @ dquote @ '' throw a ''
                      @ show_int (status r) @ '' code.''))),
            [Dispatched req, BodyRead])"
  using assms by (simp add: thunk_def)

lemma thunk_events:
  "Dispatched r \<in> set (snd (thunk pf endpoint route req)) \<Longrightarrow> r = req"
  by (auto simp: thunk_def split: sum.splits if_splits)

subsection \<open>The example client\<close>

lemma parse_user_endpoint: "parseEndpoint ''GET /users/:userId'' = Inr (''GET'', ''/users/:userId'')"
  by code_simp

lemma path_user_123: "generatePath ''/users/:userId'' [(''userId'', JNum 123)] = Inr ''/users/123''"
  by code_simp


lemma build_user_123:
  "buildRequest (examplePlatform r) (exampleConfiguration ps fs) None ''GET /users/:userId''
     (userOptions (JNum 123) None b)
   = Inr (userRoute ps fs, userRequest ''123'')"
  by (simp add: buildRequest_def examplePlatform_def exampleConfiguration_def userOptions_def
      userRequest_def parse_user_endpoint getURL_def path_user_123 resolveAgainst_def
      mergeHeaders_def)


lemma example_propagates: "propagates (exampleConfiguration ps fs)"
  by (simp add: propagates_def exampleConfiguration_def)

lemma example_fetch: "fetch (examplePlatform r) req = Inr r"
  by (simp add: examplePlatform_def respondWith_def)

lemma json_content_type: "js_includes ''application/json'' ''json''"
  by code_simp

lemma plain_content_type: "\<not> js_includes ''text/plain'' ''json''"
  by code_simp

lemma parse_id: "parse (JSONText (JObj [(''id'', JStr ''123'')])) = Inr (JObj [(''id'', JStr ''123'')])"
  by code_simp

lemma parse_error:
  "parse (JSONText (JObj [(''error'', JStr ''not found'')])) = Inr (JObj [(''error'', JStr ''not found'')])"
  by code_simp

lemma show_500: "show_int 500 = ''500''"
  by code_simp

text \<open>
  The user with the number \<open>0\<close>: the request goes to the collection, \<open>/users\<close>, because
  \<open>generatePath\<close> has dropped the parameter.
\<close>

lemma path_user_zero: "generatePath ''/users/:userId'' [(''userId'', JNum 0)] = Inr ''/users''"
  by code_simp

lemma build_user_zero:
  "buildRequest (examplePlatform r) (exampleConfiguration ps fs) None ''GET /users/:userId''
     (userOptions (JNum 0) None b)
   = Inr (userRoute ps fs,
          \<lparr>requestURL = \<lparr>href = ''http://example.com/users'', searchParams = []\<rparr>,
           requestMethod = ''GET'', requestHeaders = [], requestSignal = None, requestBody = None\<rparr>)"
  by (simp add: buildRequest_def examplePlatform_def exampleConfiguration_def userOptions_def
      parse_user_endpoint getURL_def path_user_zero resolveAgainst_def mergeHeaders_def)

subsection \<open>Status classes\<close>

text \<open>
  Claim C1. For a call that is dispatched (through a measurement hook that returns what
  the thunk returns) and answered with a JSON response of status 200 to 299 whose body
  parses: when the endpoint declares no failure schema, \<open>request\<close> returns what the
  success schema makes of the parsed body, directly; when it declares one, \<open>request\<close>
  returns the object \<open>{status: "success", data: validated}\<close>. A rejection of the
  success schema is thrown as it is. The route is the one registered for the endpoint, so
  the shape is fixed by the configuration, whatever the response.
\<close>

theorem request_success_shape:
  assumes "buildRequest pf cfg token endpoint options = Inr (route, req)"
    and "propagates cfg"
    and "fetch pf req = Inr r"
    and "contentType r = Some ct" and "js_includes ct ''json''"
    and "parse (bodyText r) = Inr body"
    and "200 \<le> status r" and "status r < 300"
  shows "map_of (endpoints cfg) endpoint = Some route
       \<and> (failureSchema route = None \<longrightarrow>
            request pf cfg token endpoint options
              = (successSchema route body, [Dispatched req, BodyRead]))
       \<and> (failureSchema route \<noteq> None \<longrightarrow>
            request pf cfg token endpoint options
              = ((case successSchema route body of
                    Inl e \<Rightarrow> Inl e
                  | Inr validated \<Rightarrow>
                      Inr (JObj [(''status'', JStr ''success''), (''data'', validated)])),
                 [Dispatched req, BodyRead]))"
proof -
  have "request pf cfg token endpoint options = thunk pf endpoint route req"
    using assms(1,2) by (simp add: request_thunk)
  then show ?thesis
    using thunk_json [OF assms(3-6), of endpoint route] assms(7,8) buildRequest_route [OF assms(1)]
    by (auto split: option.splits)
qed

text \<open>
  The first end-to-end scenario of the specification, without and with a failure schema.
\<close>

theorem request_success_shape_witness:
  "request (examplePlatform (jsonResponse 200 (JObj [(''id'', JStr ''123'')])))
     (exampleConfiguration Absent None) None ''GET /users/:userId'' (userOptions (JNum 123) None None)
     = (Inr (JObj [(''id'', JStr ''123'')]), [Dispatched (userRequest ''123''), BodyRead])
   \<and> request (examplePlatform (jsonResponse 200 (JObj [(''id'', JStr ''123'')])))
     (exampleConfiguration Absent (Some rejectAny)) None ''GET /users/:userId''
     (userOptions (JNum 123) None None)
     = (Inr (JObj [(''status'', JStr ''success''), (''data'', JObj [(''id'', JStr ''123'')])]),
        [Dispatched (userRequest ''123''), BodyRead])"
  using request_success_shape [OF build_user_123 example_propagates example_fetch,
      of "jsonResponse 200 (JObj [(''id'', JStr ''123'')])" "''application/json''"
        "JObj [(''id'', JStr ''123'')]" Absent None None]
    request_success_shape [OF build_user_123 example_propagates example_fetch,
      of "jsonResponse 200 (JObj [(''id'', JStr ''123'')])" "''application/json''"
        "JObj [(''id'', JStr ''123'')]" Absent "Some rejectAny" None]
    json_content_type parse_id
  by (simp add: jsonResponse_def userRoute_def acceptAny_def)

text \<open>
  Claim C2. For a call that is dispatched and answered with a JSON response whose body
  parses: with a status of 400 to 499, \<open>request\<close> throws the missing-failure-schema
  error naming the endpoint when the endpoint declares no failure schema, and otherwise
  returns \<open>{status: "failure", data: validated, code: status}\<close>, or throws the failure
  schema's rejection; with any status outside 200 to 299 and 400 to 499, \<open>request\<close>
  throws the error that names the endpoint and the status code.
\<close>

theorem request_failure_classification:
  assumes "buildRequest pf cfg token endpoint options = Inr (route, req)"
    and "propagates cfg"
    and "fetch pf req = Inr r"
    and "contentType r = Some ct" and "js_includes ct ''json''"
    and "parse (bodyText r) = Inr body"
  shows "(400 \<le> status r \<and> status r < 500 \<and> failureSchema route = None \<longrightarrow>
            request pf cfg token endpoint options
              = (Inl (ReferenceError (''Missing '' @ dquote @ ''failure'' @ dquote
                        @ '' schema for endpoint '' @ dquote @ endpoint @ dquote @ ''.'')),
                 [Dispatched req, BodyRead]))
       \<and> (\<forall>FailureSchema. 400 \<le> status r \<and> status r < 500
              \<and> failureSchema route = Some FailureSchema \<longrightarrow>
            request pf cfg token endpoint options
              = ((case FailureSchema body of
                    Inl e \<Rightarrow> Inl e
                  | Inr validated \<Rightarrow>
                      Inr (JObj [(''status'', JStr ''failure''), (''data'', validated),
                                 (''code'', JNum (status r))])),
                 [Dispatched req, BodyRead]))
       \<and> (\<not> (200 \<le> status r \<and> status r < 300) \<and> \<not> (400 \<le> status r \<and> status r < 500) \<longrightarrow>
            request pf cfg token endpoint options
              = (Inl (Error (''The endpoint '' @ dquote @ endpoint @ dquote @ '' throw a ''
                        @ show_int (status r) @ '' code.'')),
                 [Dispatched req, BodyRead]))"
proof -
  have "request pf cfg token endpoint options = thunk pf endpoint route req"
    using assms(1,2) by (simp add: request_thunk)
  then show ?thesis
    using thunk_json [OF assms(3-6), of endpoint route]
    by (auto split: option.splits)
qed

text \<open>
  Scenarios two to four of the specification: 404 with and without a failure schema,
  and 500.
\<close>

theorem request_failure_classification_witness:
  "request (examplePlatform (jsonResponse 404 (JObj [(''error'', JStr ''not found'')])))
     (exampleConfiguration Absent (Some acceptAny)) None ''GET /users/:userId''
     (userOptions (JNum 123) None None)
     = (Inr (JObj [(''status'', JStr ''failure''),
                   (''data'', JObj [(''error'', JStr ''not found'')]), (''code'', JNum 404)]),
        [Dispatched (userRequest ''123''), BodyRead])
   \<and> request (examplePlatform (jsonResponse 404 (JObj [(''error'', JStr ''not found'')])))
     (exampleConfiguration Absent None) None ''GET /users/:userId''
     (userOptions (JNum 123) None None)
     = (Inl (ReferenceError (''Missing '' @ dquote @ ''failure'' @ dquote
               @ '' schema for endpoint '' @ dquote @ ''GET /users/:userId'' @ dquote @ ''.'')),
        [Dispatched (userRequest ''123''), BodyRead])
   \<and> request (examplePlatform (jsonResponse 500 (JObj [(''error'', JStr ''not found'')])))
     (exampleConfiguration Absent (Some acceptAny)) None ''GET /users/:userId''
     (userOptions (JNum 123) None None)
     = (Inl (Error (''The endpoint '' @ dquote @ ''GET /users/:userId'' @ dquote
               @ '' throw a 500 code.'')),
        [Dispatched (userRequest ''123''), BodyRead])"
  using request_failure_classification [OF build_user_123 example_propagates example_fetch,
      of "jsonResponse 404 (JObj [(''error'', JStr ''not found'')])" "''application/json''"
        "JObj [(''error'', JStr ''not found'')]" Absent "Some acceptAny" None]
    request_failure_classification [OF build_user_123 example_propagates example_fetch,
      of "jsonResponse 404 (JObj [(''error'', JStr ''not found'')])" "''application/json''"
        "JObj [(''error'', JStr ''not found'')]" Absent None None]
    request_failure_classification [OF build_user_123 example_propagates example_fetch,
      of "jsonResponse 500 (JObj [(''error'', JStr ''not found'')])" "''application/json''"
        "JObj [(''error'', JStr ''not found'')]" Absent "Some acceptAny" None]
    json_content_type parse_error show_500
  by (simp add: jsonResponse_def userRoute_def acceptAny_def)

subsection \<open>Responses that are not JSON\<close>

text \<open>\<open>includes\<close> is containment as a contiguous substring.\<close>

lemma startsWith_iff: "startsWith s p \<longleftrightarrow> (\<exists>b. s = p @ b)"
proof
  assume "startsWith s p"
  then have "s = p @ drop (length p) s"
    unfolding startsWith_def by (metis append_take_drop_id)
  then show "\<exists>b. s = p @ b" ..
next
  assume "\<exists>b. s = p @ b"
  then show "startsWith s p" by (auto simp: startsWith_def)
qed

lemma js_includes_iff: "js_includes s p \<longleftrightarrow> (\<exists>a b. s = a @ p @ b)"
proof (induction s)
  case Nil
  then show ?case by auto
next
  case (Cons c s)
  show ?case
  proof
    assume "js_includes (c # s) p"
    then consider "startsWith (c # s) p" | "js_includes s p" by auto
    then show "\<exists>a b. c # s = a @ p @ b"
    proof cases
      case 1
      then obtain b where "c # s = p @ b" using startsWith_iff by blast
      then have "c # s = [] @ p @ b" by simp
      then show ?thesis by blast
    next
      case 2
      then obtain a b where "s = a @ p @ b" using Cons.IH by blast
      then have "c # s = (c # a) @ p @ b" by simp
      then show ?thesis by blast
    qed
  next
    assume "\<exists>a b. c # s = a @ p @ b"
    then obtain a b where ab: "c # s = a @ p @ b" by blast
    show "js_includes (c # s) p"
    proof (cases a)
      case Nil
      then have "startsWith (c # s) p" using ab startsWith_iff by auto
      then show ?thesis by simp
    next
      case (Cons d a')
      then have "s = a' @ p @ b" using ab by simp
      then have "js_includes s p" using Cons.IH by blast
      then show ?thesis by simp
    qed
  qed
qed

text \<open>
  Claim C6. For a call that is dispatched and answered with a response whose
  \<open>Content-Type\<close> is absent or does not contain \<open>json\<close>, \<open>request\<close> throws the
  non-JSON-response error naming the endpoint, and the only event of the call is the
  dispatch: the body is not read.
\<close>

theorem request_non_json:
  assumes "buildRequest pf cfg token endpoint options = Inr (route, req)"
    and "propagates cfg"
    and "fetch pf req = Inr r"
    and "case contentType r of None \<Rightarrow> True | Some ct \<Rightarrow> \<not> js_includes ct ''json''"
  shows "request pf cfg token endpoint options
           = (Inl (TypeError (''The endpoint '' @ dquote @ endpoint @ dquote
                     @ '' returned a non-JSON response.'')),
              [Dispatched req])
       \<and> BodyRead \<notin> set (snd (request pf cfg token endpoint options))"
proof -
  have "request pf cfg token endpoint options = thunk pf endpoint route req"
    using assms(1,2) by (simp add: request_thunk)
  moreover have "thunk pf endpoint route req
           = (Inl (TypeError (''The endpoint '' @ dquote @ endpoint @ dquote
                     @ '' returned a non-JSON response.'')),
              [Dispatched req])"
    using assms(3,4) by (auto simp: thunk_def split: option.splits)
  ultimately show ?thesis by simp
qed

text \<open>
  Scenario five of the specification: a \<open>text/plain\<close> response.
\<close>

theorem request_non_json_witness:
  "request (examplePlatform plainResponse) (exampleConfiguration Absent None) None
     ''GET /users/:userId'' (userOptions (JNum 123) None None)
     = (Inl (TypeError (''The endpoint '' @ dquote @ ''GET /users/:userId'' @ dquote
               @ '' returned a non-JSON response.'')),
        [Dispatched (userRequest ''123'')])"
  using request_non_json [OF build_user_123 example_propagates example_fetch,
      of plainResponse Absent None None]
    plain_content_type
  by (simp add: plainResponse_def)

subsection \<open>The request body and the cancellation handle\<close>

lemma withoutBody_fields:
  "optSignal (withoutBody options) = optSignal options"
  "optHeaders (withoutBody options) = optHeaders options"
  "(case optVariables (withoutBody options) of None \<Rightarrow> None | Some vs \<Rightarrow> varParams vs)
     = (case optVariables options of None \<Rightarrow> None | Some vs \<Rightarrow> varParams vs)"
  "(case optVariables (withoutBody options) of
      None \<Rightarrow> Inr u
    | Some vs \<Rightarrow> (case varSearch vs of None \<Rightarrow> Inr u | Some search \<Rightarrow> getSearchParams route u search))
     = (case optVariables options of
          None \<Rightarrow> Inr u
        | Some vs \<Rightarrow> (case varSearch vs of None \<Rightarrow> Inr u | Some search \<Rightarrow> getSearchParams route u search))"
  "(case optVariables (withoutBody options) of
      None \<Rightarrow> Inr None
    | Some vs \<Rightarrow> (case varBody vs of None \<Rightarrow> Inr None | Some b \<Rightarrow> getBody route b))
     = Inr None"
  by (auto simp: withoutBody_def split: option.splits)

lemma buildRequest_withoutBody:
  "buildRequest pf cfg token endpoint (withoutBody options) =
     (case map_of (endpoints cfg) endpoint of
        None \<Rightarrow>
          Inl (ReferenceError (''Missing endpoint '' @ dquote @ endpoint @ dquote
                 @ ''. You can add it to your API client configuration.''))
      | Some route \<Rightarrow>
     (case parseEndpoint endpoint of
        Inl e \<Rightarrow> Inl e
      | Inr (m, path) \<Rightarrow>
     (case getURL pf cfg path
             (case optVariables options of None \<Rightarrow> None | Some vs \<Rightarrow> varParams vs) of
        Inl e \<Rightarrow> Inl e
      | Inr url0 \<Rightarrow>
     (case (case optVariables options of
              None \<Rightarrow> Inr url0
            | Some vs \<Rightarrow>
                (case varSearch vs of
                   None \<Rightarrow> Inr url0
                 | Some search \<Rightarrow> getSearchParams route url0 search)) of
        Inl e \<Rightarrow> Inl e
      | Inr url1 \<Rightarrow>
     (case (case credentials cfg of
              None \<Rightarrow> Inr (url1, mergeHeaders
                  [fetchHeaders cfg, (case optHeaders options of None \<Rightarrow> [] | Some h \<Rightarrow> h)])
            | Some hook \<Rightarrow> hook url1 (mergeHeaders
                  [fetchHeaders cfg, (case optHeaders options of None \<Rightarrow> [] | Some h \<Rightarrow> h)]) token) of
        Inl e \<Rightarrow> Inl e
      | Inr (url2, headers1) \<Rightarrow>
     (if (case optSignal options of None \<Rightarrow> False | Some s \<Rightarrow> aborted s)
      then Inl (DOMException ''Aborted'' ''AbortError'')
      else
          Inr (route,
               \<lparr>requestURL = url2, requestMethod = m, requestHeaders = headers1,
                requestSignal = optSignal options, requestBody = None\<rparr>)))))))"
  unfolding buildRequest_def withoutBody_fields Let_def
  by (simp split: option.splits sum.splits prod.splits)

lemma buildRequest_withoutBody_body:
  "buildRequest pf cfg token endpoint (withoutBody options) = Inr (route, req)
     \<Longrightarrow> requestBody req = None"
  unfolding buildRequest_withoutBody
  by (auto split: option.splits sum.splits prod.splits if_splits)

lemma withoutSignal_fields:
  "optSignal (withoutSignal options) = None"
  "optHeaders (withoutSignal options) = optHeaders options"
  "optVariables (withoutSignal options) = optVariables options"
  by (simp_all add: withoutSignal_def)

lemma buildRequest_aborted:
  assumes "optSignal options = Some s" and "aborted s"
  shows "buildRequest pf cfg token endpoint options =
           (case buildRequest pf cfg token endpoint (withoutBody (withoutSignal options)) of
              Inl e \<Rightarrow> Inl e
            | Inr built \<Rightarrow> Inl (DOMException ''Aborted'' ''AbortError''))"
  unfolding buildRequest_withoutBody withoutSignal_fields
  unfolding buildRequest_def Let_def
  using assms by (simp split: option.splits sum.splits prod.splits)

lemma buildRequest_body:
  assumes "buildRequest pf cfg token endpoint options = Inr (route, req)"
    and "requestBody req \<noteq> None"
  shows "requestMethod req \<noteq> ''GET'' \<and> bodyVariable options \<noteq> None
           \<and> (\<exists>s. bodySchema route = Schema s)"
  using assms
  by (auto simp: buildRequest_def Let_def bodyVariable_def getBody_def serialize_def
      split: option.splits sum.splits prod.splits if_splits slot.splits)

lemma buildRequest_no_body:
  assumes "map_of (endpoints cfg) endpoint = Some route"
    and "parseEndpoint endpoint = Inr (m, path)"
    and "m = ''GET'' \<or> bodyVariable options = None \<or> bodySchema route = Absent"
  shows "buildRequest pf cfg token endpoint options
           = buildRequest pf cfg token endpoint (withoutBody options)"
  unfolding buildRequest_withoutBody
  unfolding buildRequest_def Let_def
  using assms
  by (auto simp: bodyVariable_def getBody_def split: option.splits sum.splits prod.splits)

lemma build_user_unsignalled:
  "buildRequest (examplePlatform r) (exampleConfiguration ps fs) None ''GET /users/:userId''
     (withoutBody (withoutSignal (userOptions (JNum 123) sig b)))
   = Inr (userRoute ps fs, userRequest ''123'')"
  by (simp add: buildRequest_def examplePlatform_def exampleConfiguration_def userOptions_def
      userRequest_def parse_user_endpoint getURL_def path_user_123 resolveAgainst_def
      mergeHeaders_def withoutBody_def withoutSignal_def)

lemma parse_create_endpoint: "parseEndpoint ''POST /users'' = Inr (''POST'', ''/users'')"
  by code_simp

lemma path_users: "generatePath ''/users'' [] = Inr ''/users''"
  by code_simp

lemma serialize_name:
  "serialize (JObj [(''firstName'', JStr ''Ada'')]) = Some (JSONText (JObj [(''first_name'', JStr ''Ada'')]))"
  by code_simp

lemma build_create:
  "buildRequest (examplePlatform r) (exampleConfiguration ps fs) None ''POST /users'' createOptions
   = Inr (createRoute, createRequest)"
  by (simp add: buildRequest_def examplePlatform_def exampleConfiguration_def createOptions_def
      createRequest_def parse_create_endpoint getURL_def path_users resolveAgainst_def
      mergeHeaders_def getBody_def createRoute_def acceptAny_def serialize_name)

text \<open>
  Claim C7. A call whose cancellation handle is already cancelled never reaches the
  transport and always throws. The check stands behind the lookup of the endpoint, the
  construction of the URL, the encoding of the search and the credentials hook: when
  these succeed (the same call without handle and body would be built), the error is the
  cancellation error \<open>DOMException("Aborted", "AbortError")\<close>; when one of them throws,
  its error is the one thrown.
\<close>

theorem request_aborted_signal:
  assumes "optSignal options = Some s" and "aborted s"
  shows "snd (request pf cfg token endpoint options) = []
       \<and> (\<exists>e. fst (request pf cfg token endpoint options) = Inl e)
       \<and> request pf cfg token endpoint options =
           (case buildRequest pf cfg token endpoint (withoutBody (withoutSignal options)) of
              Inl e \<Rightarrow> (Inl e, [])
            | Inr built \<Rightarrow> (Inl (DOMException ''Aborted'' ''AbortError''), []))"
  unfolding request_def buildRequest_aborted [OF assms]
  by (simp split: sum.splits)

text \<open>
  Scenario six of the specification: the handle is cancelled before the call.
\<close>

theorem request_aborted_signal_witness:
  "request (examplePlatform (jsonResponse 200 (JObj [(''id'', JStr ''123'')])))
     (exampleConfiguration Absent None) None ''GET /users/:userId''
     (userOptions (JNum 123) (Some (AbortSignal True)) None)
     = (Inl (DOMException ''Aborted'' ''AbortError''), [])"
  using request_aborted_signal [of "userOptions (JNum 123) (Some (AbortSignal True)) None"
      "AbortSignal True" "examplePlatform (jsonResponse 200 (JObj [(''id'', JStr ''123'')]))"
      "exampleConfiguration Absent None" None "''GET /users/:userId''"]
    build_user_unsignalled
  by (simp add: userOptions_def)

text \<open>
  Claim C10. A request that is built, and a request that is dispatched, carries a body
  only when the method is not \<open>GET\<close>, the caller gave a body variable and the endpoint
  declares a body schema. When the method is \<open>GET\<close>, or there is no body variable, or the
  endpoint has no body schema, the call is the call without the body variable: the
  variable raises no error, and the request that is built has no body.
\<close>

theorem request_body_only_when_declared:
  "(\<forall>route req. buildRequest pf cfg token endpoint options = Inr (route, req)
        \<and> requestBody req \<noteq> None \<longrightarrow>
      requestMethod req \<noteq> ''GET'' \<and> bodyVariable options \<noteq> None
        \<and> (\<exists>s. bodySchema route = Schema s))
   \<and> (\<forall>req. propagates cfg \<and> Dispatched req \<in> set (snd (request pf cfg token endpoint options))
        \<and> requestBody req \<noteq> None \<longrightarrow>
      requestMethod req \<noteq> ''GET'' \<and> bodyVariable options \<noteq> None
        \<and> (\<exists>route s. map_of (endpoints cfg) endpoint = Some route \<and> bodySchema route = Schema s))
   \<and> (\<forall>route m path. map_of (endpoints cfg) endpoint = Some route
        \<and> parseEndpoint endpoint = Inr (m, path)
        \<and> (m = ''GET'' \<or> bodyVariable options = None \<or> bodySchema route = Absent) \<longrightarrow>
      buildRequest pf cfg token endpoint options
        = buildRequest pf cfg token endpoint (withoutBody options)
      \<and> request pf cfg token endpoint options = request pf cfg token endpoint (withoutBody options)
      \<and> (\<forall>r req. buildRequest pf cfg token endpoint options = Inr (r, req)
            \<longrightarrow> requestBody req = None))"
proof -
  have only: "\<forall>route req. buildRequest pf cfg token endpoint options = Inr (route, req)
        \<and> requestBody req \<noteq> None \<longrightarrow>
      requestMethod req \<noteq> ''GET'' \<and> bodyVariable options \<noteq> None
        \<and> (\<exists>s. bodySchema route = Schema s)"
    using buildRequest_body by blast
  have sent: "\<forall>req. propagates cfg \<and> Dispatched req \<in> set (snd (request pf cfg token endpoint options))
        \<and> requestBody req \<noteq> None \<longrightarrow>
      requestMethod req \<noteq> ''GET'' \<and> bodyVariable options \<noteq> None
        \<and> (\<exists>route s. map_of (endpoints cfg) endpoint = Some route \<and> bodySchema route = Schema s)"
  proof (intro allI impI, elim conjE)
    fix req
    assume p: "propagates cfg"
      and d: "Dispatched req \<in> set (snd (request pf cfg token endpoint options))"
      and b: "requestBody req \<noteq> None"
    show "requestMethod req \<noteq> ''GET'' \<and> bodyVariable options \<noteq> None
        \<and> (\<exists>route s. map_of (endpoints cfg) endpoint = Some route \<and> bodySchema route = Schema s)"
    proof (cases "buildRequest pf cfg token endpoint options")
      case (Inl e)
      then show ?thesis using d by (simp add: request_def)
    next
      case (Inr built)
      obtain route req' where built: "built = (route, req')" by (cases built)
      then have "request pf cfg token endpoint options = thunk pf endpoint route req'"
        using Inr p by (simp add: request_thunk)
      then have "req = req'" using d thunk_events by simp
      then show ?thesis
        using buildRequest_body [of pf cfg token endpoint options route req]
          buildRequest_route [of pf cfg token endpoint options route req] Inr built b
        by auto
    qed
  qed
  have other: "\<forall>route m path. map_of (endpoints cfg) endpoint = Some route
        \<and> parseEndpoint endpoint = Inr (m, path)
        \<and> (m = ''GET'' \<or> bodyVariable options = None \<or> bodySchema route = Absent) \<longrightarrow>
      buildRequest pf cfg token endpoint options
        = buildRequest pf cfg token endpoint (withoutBody options)
      \<and> request pf cfg token endpoint options = request pf cfg token endpoint (withoutBody options)
      \<and> (\<forall>r req. buildRequest pf cfg token endpoint options = Inr (r, req)
            \<longrightarrow> requestBody req = None)"
  proof (intro allI impI, elim conjE)
    fix route m path
    assume "map_of (endpoints cfg) endpoint = Some route"
      and "parseEndpoint endpoint = Inr (m, path)"
      and "m = ''GET'' \<or> bodyVariable options = None \<or> bodySchema route = Absent"
    then have same: "buildRequest pf cfg token endpoint options
        = buildRequest pf cfg token endpoint (withoutBody options)"
      by (rule buildRequest_no_body)
    then show "buildRequest pf cfg token endpoint options
        = buildRequest pf cfg token endpoint (withoutBody options)
      \<and> request pf cfg token endpoint options = request pf cfg token endpoint (withoutBody options)
      \<and> (\<forall>r req. buildRequest pf cfg token endpoint options = Inr (r, req)
            \<longrightarrow> requestBody req = None)"
      using buildRequest_withoutBody_body [of pf cfg token endpoint options]
      by (simp add: request_def)
  qed
  show ?thesis using only sent other by blast
qed

text \<open>
  A \<open>GET\<close> call with a body variable builds the request without a body; the \<open>POST\<close>
  call to the endpoint with a body schema carries the serialized body.
\<close>

theorem request_body_only_when_declared_witness:
  "buildRequest (examplePlatform plainResponse) (exampleConfiguration Absent None) None
     ''GET /users/:userId'' (userOptions (JNum 123) None (Some (JObj [(''firstName'', JStr ''Ada'')])))
     = Inr (userRoute Absent None, userRequest ''123'')
   \<and> requestBody (userRequest ''123'') = None
   \<and> buildRequest (examplePlatform plainResponse) (exampleConfiguration Absent None) None
     ''POST /users'' createOptions = Inr (createRoute, createRequest)
   \<and> requestMethod createRequest \<noteq> ''GET'' \<and> bodyVariable createOptions \<noteq> None
   \<and> bodySchema createRoute = Schema acceptAny"
proof -
  let ?pf = "examplePlatform plainResponse" and ?cfg = "exampleConfiguration Absent None"
  let ?get = "userOptions (JNum 123) None (Some (JObj [(''firstName'', JStr ''Ada'')]))"
  have route: "map_of (endpoints ?cfg) ''GET /users/:userId'' = Some (userRoute Absent None)"
    by (simp add: exampleConfiguration_def)
  have sent: "requestBody createRequest \<noteq> None"
    by (simp add: createRequest_def)
  have declared: "bodySchema createRoute = Schema acceptAny"
    by (simp add: createRoute_def)
  have built: "buildRequest ?pf ?cfg None ''GET /users/:userId'' ?get
                 = Inr (userRoute Absent None, userRequest ''123'')"
    by (rule build_user_123)
  have "\<forall>r req. buildRequest ?pf ?cfg None ''GET /users/:userId'' ?get = Inr (r, req)
          \<longrightarrow> requestBody req = None"
    using request_body_only_when_declared [of ?pf ?cfg None "''GET /users/:userId''" ?get,
        THEN conjunct2, THEN conjunct2, rule_format,
        of "userRoute Absent None" "''GET''" "''/users/:userId''"]
      route parse_user_endpoint
    by simp
  then have none: "requestBody (userRequest ''123'') = None"
    using built by blast
  have "requestMethod createRequest \<noteq> ''GET'' \<and> bodyVariable createOptions \<noteq> None
          \<and> (\<exists>s. bodySchema createRoute = Schema s)"
    using request_body_only_when_declared [of ?pf ?cfg None "''POST /users''" createOptions,
        THEN conjunct1, rule_format, of createRoute createRequest]
      build_create [of plainResponse Absent None] sent
    by simp
  then show ?thesis
    using built none build_create [of plainResponse Absent None] declared by simp
qed

subsection \<open>Route parameters\<close>
















subsection \<open>The query encoder\<close>

lemma foldl_append_pairs:
  "foldl (\<lambda>sp x. searchParams_append (f x) (g x) sp) sp xs = sp @ map (\<lambda>x. (f x, g x)) xs"
  by (induction xs arbitrary: sp) (auto simp: searchParams_append_def)

lemma searchParams_set_values:
  "map snd (filter (\<lambda>(name, y). name = key) (searchParams_set key v sp)) = [v]"
  by (induction sp) (auto simp: filter_empty_conv)

lemma searchParams_set_others:
  "filter (\<lambda>(name, y). name \<noteq> key) (searchParams_set key v sp)
     = filter (\<lambda>(name, y). name \<noteq> key) sp"
proof (induction sp)
  case Nil
  then show ?case by simp
next
  case (Cons p sp)
  have "filter (\<lambda>(name, y). name \<noteq> key) (filter (\<lambda>(m, y). m \<noteq> key) sp)
          = filter (\<lambda>(name, y). name \<noteq> key) sp"
    by (induction sp) auto
  then show ?case using Cons by (cases p) auto
qed

text \<open>
  Claim C8. One entry of the validated search is encoded by the type of its value: a
  string, a boolean or a number sets the key, so that afterwards the key has exactly one
  pair, with the value \<open>String(value)\<close>, and the pairs of other keys are as before; an
  array appends one pair of the key per element, in the order of the elements; a plain
  object appends one pair \<open>key[k]\<close> per entry, in the order of the entries; \<open>null\<close> and
  \<open>undefined\<close> leave the URL as it is. Nothing but the search parameters changes, and
  the entries of the validated search are encoded one after the other.
\<close>

theorem encodeEntry_by_type:
  "(v = JStr s \<or> v = JBool b \<or> v = JNum n \<longrightarrow>
      searchParams (encodeEntry u (key, v)) = searchParams_set key (js_String v) (searchParams u)
      \<and> map snd (filter (\<lambda>(name, y). name = key) (searchParams (encodeEntry u (key, v))))
          = [js_String v]
      \<and> filter (\<lambda>(name, y). name \<noteq> key) (searchParams (encodeEntry u (key, v)))
          = filter (\<lambda>(name, y). name \<noteq> key) (searchParams u))
   \<and> searchParams (encodeEntry u (key, JArr items))
        = searchParams u @ map (\<lambda>item. (key, js_String item)) items
   \<and> searchParams (encodeEntry u (key, JObj es))
        = searchParams u @ map (\<lambda>(k, w). (key @ ''['' @ k @ '']'', js_String w)) es
   \<and> encodeEntry u (key, JNull) = u
   \<and> encodeEntry u (key, JUndefined) = u
   \<and> href (encodeEntry u (key, v)) = href u
   \<and> (searchSchema route = Schema validate \<and> validate search = Inr (JObj entries) \<longrightarrow>
        getSearchParams route u search = Inr (foldl encodeEntry u entries))"
proof -
  have scalar: "v = JStr s \<or> v = JBool b \<or> v = JNum n \<longrightarrow>
      searchParams (encodeEntry u (key, v)) = searchParams_set key (js_String v) (searchParams u)
      \<and> map snd (filter (\<lambda>(name, y). name = key) (searchParams (encodeEntry u (key, v))))
          = [js_String v]
      \<and> filter (\<lambda>(name, y). name \<noteq> key) (searchParams (encodeEntry u (key, v)))
          = filter (\<lambda>(name, y). name \<noteq> key) (searchParams u)"
    using searchParams_set_values searchParams_set_others by auto
  have array: "searchParams (encodeEntry u (key, JArr items))
        = searchParams u @ map (\<lambda>item. (key, js_String item)) items"
    using foldl_append_pairs [of "\<lambda>item. key" js_String "searchParams u" items] by simp
  have object: "searchParams (encodeEntry u (key, JObj es))
        = searchParams u @ map (\<lambda>(k, w). (key @ ''['' @ k @ '']'', js_String w)) es"
    using foldl_append_pairs [of "\<lambda>(k, w). key @ ''['' @ k @ '']''" "\<lambda>(k, w). js_String w"
        "searchParams u" es]
    by (simp add: case_prod_unfold)
  have location: "href (encodeEntry u (key, v)) = href u"
    by (cases v) simp_all
  have loop: "searchSchema route = Schema validate \<and> validate search = Inr (JObj entries) \<longrightarrow>
        getSearchParams route u search = Inr (foldl encodeEntry u entries)"
    by (simp add: getSearchParams_def object_entries_def)
  show ?thesis
    using scalar array object location loop by simp
qed

lemma encode_example:
  "searchParams (foldl encodeEntry \<lparr>href = ''http://example.com/users'', searchParams = [(''page'', ''1'')]\<rparr>
     [(''id'', JArr [JNum 1, JNum 2, JNum 3]),
           (''filter'', JObj [(''color'', JStr ''red''), (''quantity'', JNum 1)]),
           (''page'', JNum 2), (''active'', JBool True), (''name'', JStr ''Ada''),
           (''nothing'', JNull), (''other'', JUndefined)])
   = [(''page'', ''2''), (''id'', ''1''), (''id'', ''2''), (''id'', ''3''),
      (''filter[color]'', ''red''), (''filter[quantity]'', ''1''),
      (''active'', ''true''), (''name'', ''Ada'')]"
  by code_simp

text \<open>
  The examples of the specification, \<open>id=1&id=2&id=3\<close> and
  \<open>filter[color]=red&filter[quantity]=1\<close>, with a number that overwrites \<open>page\<close>.
\<close>

theorem encodeEntry_by_type_witness:
  "map_sum id searchParams
     (getSearchParams searchRoute \<lparr>href = ''http://example.com/users'', searchParams = [(''page'', ''1'')]\<rparr>
        exampleSearch)
   = Inr [(''page'', ''2''), (''id'', ''1''), (''id'', ''2''), (''id'', ''3''),
          (''filter[color]'', ''red''), (''filter[quantity]'', ''1''),
          (''active'', ''true''), (''name'', ''Ada'')]"
  using encodeEntry_by_type [of JNull "[]" True 0
      "\<lparr>href = ''http://example.com/users'', searchParams = [(''page'', ''1'')]\<rparr>" "[]" "[]" "[]"
      searchRoute acceptAny exampleSearch
      "[(''id'', JArr [JNum 1, JNum 2, JNum 3]),
           (''filter'', JObj [(''color'', JStr ''red''), (''quantity'', JNum 1)]),
           (''page'', JNum 2), (''active'', JBool True), (''name'', JStr ''Ada''),
           (''nothing'', JNull), (''other'', JUndefined)]"]
    encode_example
  by (simp add: searchRoute_def acceptAny_def exampleSearch_def)

section \<open>The key-casing codec round trip\<close>

subsection \<open>Snake case of a camelCase key\<close>

lemma char_classes:
  "is_upper c \<Longrightarrow> \<not> is_lower c" "is_upper c \<Longrightarrow> \<not> is_digit c" "is_lower c \<Longrightarrow> \<not> is_digit c"
  "\<not> is_upper CHR ''_''" "\<not> is_lower CHR ''_''" "\<not> is_digit CHR ''_''"
  "\<not> is_upper CHR ''/''" "\<not> is_lower CHR ''/''" "\<not> is_digit CHR ''/''"
  "\<not> is_upper CHR ''-''" "\<not> is_lower CHR ''-''" "\<not> is_digit CHR ''-''"
  by (auto simp: is_upper_def is_lower_def is_digit_def)

lemma not_capital: "is_lower c \<or> is_digit c \<Longrightarrow> \<not> is_upper c"
  by (auto simp: is_upper_def is_lower_def is_digit_def)

lemma toLowerCase_upper: "is_upper c \<Longrightarrow> is_lower (toLowerCase_char c)"
  by (auto simp: is_upper_def is_lower_def toLowerCase_char_def)

lemma toUpperCase_toLowerCase: "is_upper c \<Longrightarrow> toUpperCase_char (toLowerCase_char c) = c"
  using toLowerCase_upper [of c]
  by (auto simp: toUpperCase_char_def) (auto simp: is_upper_def toLowerCase_char_def)

lemma toLowerCase_other: "\<not> is_upper c \<Longrightarrow> toLowerCase_char c = c"
  by (simp add: toLowerCase_char_def)

lemma runs_step:
  "underscore_runs (a # b # s) =
     a # (if (is_upper a \<or> is_digit a) \<and> is_upper b \<and> s \<noteq> [] \<and> is_lower (hd s)
          then CHR ''_'' # underscore_runs (b # s) else underscore_runs (b # s))"
proof (cases s)
  case Nil
  then show ?thesis by simp
next
  case (Cons c rest)
  show ?thesis
  proof (cases "(is_upper a \<or> is_digit a) \<and> is_upper b \<and> is_lower c")
    case False
    then show ?thesis using Cons by auto
  next
    case True
    then have "underscore_runs (b # c # rest) = b # c # underscore_runs rest"
      by (cases rest rule: underscore_runs.cases) (auto simp: char_classes)
    then show ?thesis using Cons True by simp
  qed
qed

lemma runs_head: "underscore_runs (b # s) = b # tl (underscore_runs (b # s))"
  by (cases "b # s" rule: underscore_runs.cases) auto

lemma humps_step:
  "underscore_humps (a # b # s) =
     a # (if (is_lower a \<or> is_digit a) \<and> is_upper b
          then CHR ''_'' # underscore_humps (b # s) else underscore_humps (b # s))"
proof (cases "(is_lower a \<or> is_digit a) \<and> is_upper b")
  case False
  then show ?thesis by auto
next
  case True
  then have "underscore_humps (b # s) = b # underscore_humps s"
    by (cases s) (auto simp: char_classes)
  then show ?thesis using True by simp
qed

lemma humps_capital: "is_upper b \<Longrightarrow> underscore_humps (b # s) = b # underscore_humps s"
  by (cases s) (auto simp: char_classes)

lemma humps_single: "underscore_humps [a] = [a]"
  by simp

lemma runs_single: "underscore_runs [a] = [a]"
  by simp

lemma humps_runs_marks:
  "list_all is_alnum (a # k) \<Longrightarrow> no_adjacent_capitals (a # k)
     \<Longrightarrow> underscore_humps (underscore_runs (a # k)) = a # capitalsMarked k"
proof (induction k arbitrary: a)
  case Nil
  then show ?case by (simp add: capitalsMarked_def)
next
  case (Cons b k)
  have IH: "underscore_humps (underscore_runs (b # k)) = b # capitalsMarked k"
    using Cons.prems by (intro Cons.IH) auto
  obtain X where X: "underscore_runs (b # k) = b # X"
    using runs_head by blast
  have marked: "capitalsMarked (b # k) = (if is_upper b then [CHR ''_'', b] else [b]) @ capitalsMarked k"
    by (simp add: capitalsMarked_def)
  show ?case
  proof (cases "is_upper b")
    case True
    then have a: "is_lower a \<or> is_digit a"
      using Cons.prems by (auto simp: is_alnum_def)
    have direct: "underscore_humps (a # b # X) = a # CHR ''_'' # underscore_humps (b # X)"
      unfolding humps_step [of a b X] using a True by simp
    have "underscore_humps (CHR ''_'' # b # X) = CHR ''_'' # underscore_humps (b # X)"
      unfolding humps_step [of "CHR ''_''" b X] by (simp add: char_classes)
    then have marked_already:
      "underscore_humps (a # CHR ''_'' # b # X) = a # CHR ''_'' # underscore_humps (b # X)"
      unfolding humps_step [of a "CHR ''_''" "b # X"] by (simp add: char_classes)
    have "underscore_humps (underscore_runs (a # b # k)) = a # CHR ''_'' # underscore_humps (b # X)"
      unfolding runs_step [of a b k] X
      using direct marked_already by (simp del: underscore_humps.simps)
    then show ?thesis using IH X marked True by simp
  next
    case False
    have "underscore_humps (a # b # X) = a # underscore_humps (b # X)"
      unfolding humps_step [of a b X] using False by simp
    then have "underscore_humps (underscore_runs (a # b # k)) = a # underscore_humps (b # X)"
      unfolding runs_step [of a b k] X using False by simp
    then show ?thesis using IH X marked False by simp
  qed
qed

lemma capitalsMarked_plain: "list_all is_alnum k \<Longrightarrow> CHR ''-'' \<notin> set (capitalsMarked k)"
  by (induction k) (auto simp: capitalsMarked_def is_alnum_def char_classes)

lemma lower_capitalsMarked: "map toLowerCase_char (capitalsMarked k) = snake k"
  by (induction k) (auto simp: capitalsMarked_def snake_def toLowerCase_other char_classes)

lemma underscore_camelCaseKey:
  assumes "camelCaseKey k"
  shows "underscore k = snake k"
proof -
  obtain a rest where k: "k = a # rest"
    using assms by (cases k) (auto simp: camelCaseKey_def)
  have a: "is_lower a" and alnum: "list_all is_alnum (a # rest)"
    and apart: "no_adjacent_capitals (a # rest)"
    using assms k by (auto simp: camelCaseKey_def)
  have marks: "underscore_humps (underscore_runs k) = a # capitalsMarked rest"
    using humps_runs_marks [OF alnum apart] k by simp
  have small: "\<not> is_upper a"
    using a not_capital by blast
  have "a \<noteq> CHR ''-''"
    using a by (auto simp: char_classes)
  then have "CHR ''-'' \<notin> set (a # capitalsMarked rest)"
    using capitalsMarked_plain [of rest] alnum by simp
  then have "map (\<lambda>c. if c = CHR ''-'' then CHR ''_'' else c) (a # capitalsMarked rest)
               = a # capitalsMarked rest"
    by (intro map_idI) auto
  then have "underscore k = map toLowerCase_char (a # capitalsMarked rest)"
    unfolding underscore_def marks by simp
  also have "\<dots> = snake k"
    using small k lower_capitalsMarked [of rest]
    by (simp add: snake_def toLowerCase_other)
  finally show ?thesis .
qed

subsection \<open>Camel case of a snake case key\<close>

lemma snake_append: "snake (p @ r) = snake p @ snake r"
  by (simp add: snake_def)

lemma snake_small: "list_all (\<lambda>c. \<not> is_upper c) p \<Longrightarrow> snake p = p"
  by (induction p) (auto simp: snake_def)

lemma snake_Cons:
  "snake (c # k) = (if is_upper c then [CHR ''_'', toLowerCase_char c] else [c]) @ snake k"
  by (simp add: snake_def)

lemma is_alnum_separator: "\<not> is_alnum CHR ''_''" "\<not> is_alnum CHR ''/''"
  by (simp_all add: is_alnum_def char_classes)

lemma takeWhile_word:
  assumes "list_all is_alnum p" and "r = [] \<or> \<not> is_alnum (hd r)"
  shows "takeWhile is_alnum (p @ r) = p" and "dropWhile is_alnum (p @ r) = r"
proof -
  have p: "\<forall>x\<in>set p. is_alnum x"
    using assms(1) by (simp add: list_all_iff)
  have "takeWhile is_alnum r = []" and "dropWhile is_alnum r = r"
    using assms(2) by (cases r; simp)+
  then show "takeWhile is_alnum (p @ r) = p" and "dropWhile is_alnum (p @ r) = r"
    using p by (simp_all add: takeWhile_append2 dropWhile_append2)
qed

lemma snake_starts: "snake r = [] \<or> \<not> is_alnum (hd (snake r)) \<or> (r \<noteq> [] \<and> \<not> is_upper (hd r))"
  by (cases r) (auto simp: snake_Cons is_alnum_separator snake_def)

lemma capitalWords_append: "\<exists>ws. capitalWords (p @ r) = ws @ capitalWords r"
proof (induction p)
  case Nil
  then show ?case by simp
next
  case (Cons c p)
  then obtain ws where "capitalWords (p @ r) = ws @ capitalWords r" by blast
  then show ?case by simp
qed

lemma inheritedFree_suffix: "inheritedFree (p @ r) \<Longrightarrow> inheritedFree r"
  using capitalWords_append [of p r] by (auto simp: inheritedFree_def)

lemma inheritedFree_word:
  "inheritedFree (c # k) \<Longrightarrow> is_upper c
     \<Longrightarrow> acronym_or_capitalize (toLowerCase_char c # takeWhile (\<lambda>x. \<not> is_upper x) k)
           = capitalize (toLowerCase_char c # takeWhile (\<lambda>x. \<not> is_upper x) k)"
  by (simp add: inheritedFree_def acronym_or_capitalize_def)

lemma camelize_separators_snake:
  "list_all is_alnum k \<Longrightarrow> inheritedFree k \<Longrightarrow> camelize_separators (snake k) = k"
proof (induction k rule: length_induct)
  case (1 k)
  show ?case
  proof (cases k)
    case Nil
    then show ?thesis by (simp add: snake_def)
  next
    case (Cons c k')
    have alnum: "list_all is_alnum k'" and c: "is_alnum c"
      using "1.prems" Cons by auto
    have free: "inheritedFree k'"
      using "1.prems"(2) Cons inheritedFree_suffix [of "[c]" k'] by simp
    show ?thesis
    proof (cases "is_upper c")
      case False
      have "c \<noteq> CHR ''_''" and "c \<noteq> CHR ''/''"
        using c is_alnum_separator by auto
      moreover have "camelize_separators (snake k') = k'"
        using "1.IH" alnum free Cons by simp
      ultimately show ?thesis
        using Cons False by (simp add: snake_Cons)
    next
      case True
      let ?p = "takeWhile (\<lambda>x. \<not> is_upper x) k'" and ?r = "dropWhile (\<lambda>x. \<not> is_upper x) k'"
      have split: "k' = ?p @ ?r" by simp
      have p_small: "list_all (\<lambda>x. \<not> is_upper x) ?p"
        by (auto simp: list_all_iff dest: set_takeWhileD)
      have p_alnum: "list_all is_alnum ?p"
        using alnum by (auto simp: list_all_iff dest: set_takeWhileD)
      have r_alnum: "list_all is_alnum ?r"
        using alnum by (auto simp: list_all_iff dest: set_dropWhileD)
      have r_head: "?r = [] \<or> is_upper (hd ?r)"
        using hd_dropWhile [of "\<lambda>x. \<not> is_upper x" k'] by auto
      have "snake k' = snake ?p @ snake ?r"
        using snake_append [of ?p ?r] by simp
      then have snake_k': "snake k' = ?p @ snake ?r"
        using snake_small [OF p_small] by simp
      have stop: "snake ?r = [] \<or> \<not> is_alnum (hd (snake ?r))"
        using r_head snake_starts [of ?r] by auto
      have word: "list_all is_alnum (toLowerCase_char c # ?p)"
        using p_alnum toLowerCase_upper [OF True] by (simp add: is_alnum_def)
      have t: "takeWhile is_alnum (toLowerCase_char c # snake k') = toLowerCase_char c # ?p"
        and d: "dropWhile is_alnum (toLowerCase_char c # snake k') = snake ?r"
        using takeWhile_word [OF word stop] snake_k' by simp_all
      have r_free: "inheritedFree ?r"
        using free inheritedFree_suffix [of ?p ?r] by simp
      have w: "acronym_or_capitalize (toLowerCase_char c # ?p) = c # ?p"
        using inheritedFree_word [of c k'] "1.prems"(2) Cons True
        by (simp add: capitalize_def toUpperCase_toLowerCase)
      have "length ?r < length k"
        using Cons length_dropWhile_le [of "\<lambda>x. \<not> is_upper x" k'] by simp
      then have "camelize_separators (snake ?r) = ?r"
        using "1.IH" r_alnum r_free by blast
      then have "camelize_separators (snake k) = c # ?p @ ?r"
        using Cons True t d w
        by (simp add: snake_Cons)
      then show ?thesis using Cons by simp
    qed
  qed
qed

lemma camelize_lower_snake:
  assumes "camelCaseKey k" and "inheritedFree k"
  shows "camelize_lower (snake k) = k"
proof -
  obtain a rest where k: "k = a # rest"
    using assms by (cases k) (auto simp: camelCaseKey_def)
  have a: "is_lower a" and alnum: "list_all is_alnum k"
    using assms k by (auto simp: camelCaseKey_def)
  then have small: "\<not> is_upper a"
    using not_capital by blast
  then have "snake k = a # snake rest"
    using k by (simp add: snake_Cons)
  moreover have "toLowerCase_char a = a"
    using small by (rule toLowerCase_other)
  ultimately have "(case snake k of [] \<Rightarrow> []
           | c # cs \<Rightarrow> (if is_word_char c then toLowerCase_char c else c) # cs) = snake k"
    by simp
  then have "camelize_lower (snake k) = camelize_separators (snake k)"
    unfolding camelize_lower_def by (rule arg_cong)
  then show ?thesis
    using camelize_separators_snake [OF alnum assms(2)] by simp
qed

lemma camelize_underscore:
  "stableKey k \<Longrightarrow> camelize_lower (underscore k) = k"
  by (simp add: stableKey_def underscore_camelCaseKey camelize_lower_snake)

subsection \<open>Renaming the keys of a value and back\<close>

lemma update_fresh: "k \<notin> fst ` set al \<Longrightarrow> AList.update k v al = al @ [(k, v)]"
  by (induction al) auto

lemma foldl_update_distinct:
  "distinct (map fst (acc @ es))
     \<Longrightarrow> foldl (\<lambda>obj (k, v). AList.update k v obj) acc es = acc @ es"
proof (induction es arbitrary: acc)
  case Nil
  then show ?case by simp
next
  case (Cons e es)
  obtain k v where e: "e = (k, v)" by (cases e)
  have fresh: "k \<notin> fst ` set acc"
    using Cons.prems e by auto
  have "distinct (map fst ((acc @ [(k, v)]) @ es))"
    using Cons.prems e by simp
  then have "foldl (\<lambda>obj (k, v). AList.update k v obj) (acc @ [(k, v)]) es = (acc @ [(k, v)]) @ es"
    by (rule Cons.IH)
  then show ?case
    using e update_fresh [OF fresh] by simp
qed

lemma fromEntries_distinct: "distinct (map fst es) \<Longrightarrow> fromEntries es = es"
  using foldl_update_distinct [of "[]" es] by (simp add: fromEntries_def)

lemma renameKeys_inverse:
  assumes "distinct (map fst es)" and "\<forall>(k, v) \<in> set es. g (f k) = k"
  shows "renameKeys f es = map (\<lambda>(k, v). (f k, v)) es"
    and "renameKeys g (map (\<lambda>(k, v). (f k, v)) es) = es"
proof -
  have inj: "inj_on f (set (map fst es))"
  proof (rule inj_onI)
    fix x y
    assume "x \<in> set (map fst es)" and "y \<in> set (map fst es)" and "f x = f y"
    then show "x = y" using assms(2) by (metis (mono_tags, lifting) case_prodD imageE list.set_map prod.collapse)
  qed
  have "distinct (map f (map fst es))"
    using assms(1) inj distinct_map [of f "map fst es"] by blast
  then have "distinct (map fst (map (\<lambda>(k, v). (f k, v)) es))"
    by (simp add: comp_def case_prod_unfold)
  then show "renameKeys f es = map (\<lambda>(k, v). (f k, v)) es"
    unfolding renameKeys_def by (rule fromEntries_distinct)
  have "map (\<lambda>(key, v). (g key, v)) (map (\<lambda>(k, v). (f k, v)) es) = es"
    using assms(2) by (induction es) auto
  then show "renameKeys g (map (\<lambda>(k, v). (f k, v)) es) = es"
    unfolding renameKeys_def using fromEntries_distinct [OF assms(1)] by simp
qed

lemma walk_roundtrip:
  "jsonCompatible x \<Longrightarrow> keysAll (\<lambda>k. g (f k) = k) x
     \<Longrightarrow> stringify_renamed f x \<noteq> JUndefined \<and> revive_renamed g (stringify_renamed f x) = x"
proof (induction x)
  case (JArr xs)
  have each: "\<forall>x \<in> set xs. stringify_renamed f x \<noteq> JUndefined
                 \<and> revive_renamed g (stringify_renamed f x) = x"
    using JArr by (auto simp: list_all_iff)
  then have "map (\<lambda>x. let y = stringify_renamed f x in if y = JUndefined then JNull else y) xs
               = map (stringify_renamed f) xs"
    by (intro map_cong) (auto simp: Let_def)
  then have written: "stringify_renamed f (JArr xs) = JArr (map (stringify_renamed f) xs)"
    by simp
  have "map (revive_renamed g) (map (stringify_renamed f) xs) = xs"
    using each by (simp add: map_idI)
  then have "revive_renamed g (JArr (map (stringify_renamed f) xs)) = JArr xs"
    by simp
  then show ?case
    unfolding written by simp
next
  case (JObj es)
  have keys: "distinct (map fst es)" and round: "\<forall>(k, v) \<in> set es. g (f k) = k"
    using JObj.prems by (auto simp: list_all_iff)
  have each: "\<forall>(k, v) \<in> set es. stringify_renamed f v \<noteq> JUndefined
                 \<and> revive_renamed g (stringify_renamed f v) = v"
  proof (clarify)
    fix k v
    assume in_es: "(k, v) \<in> set es"
    then have "jsonCompatible v" and "keysAll (\<lambda>k. g (f k) = k) v"
      using JObj.prems by (auto simp: list_all_iff)
    moreover have "v \<in> Basic_BNFs.snds (k, v)" by simp
    ultimately show "stringify_renamed f v \<noteq> JUndefined
                 \<and> revive_renamed g (stringify_renamed f v) = v"
      using JObj.IH [OF in_es] by blast
  qed
  have renamed: "renameKeys f es = map (\<lambda>(k, v). (f k, v)) es"
    using keys round by (rule renameKeys_inverse(1) [where g = g])
  have kept: "filter (\<lambda>(k, v). v \<noteq> JUndefined)
                (map (\<lambda>(k, v). (k, stringify_renamed f v)) (map (\<lambda>(k, v). (f k, v)) es))
              = map (\<lambda>(k, v). (f k, stringify_renamed f v)) es"
    using each by (induction es) auto
  have revived: "map (\<lambda>(k, v). (k, revive_renamed g v))
                   (map (\<lambda>(k, v). (f k, stringify_renamed f v)) es)
                 = map (\<lambda>(k, v). (f k, v)) es"
    using each by (induction es) auto
  have written: "stringify_renamed f (JObj es)
                   = JObj (map (\<lambda>(k, v). (f k, stringify_renamed f v)) es)"
    using renamed kept by simp
  have "revive_renamed g (JObj (map (\<lambda>(k, v). (f k, stringify_renamed f v)) es))
          = JObj (renameKeys g (map (\<lambda>(k, v). (k, revive_renamed g v))
                   (map (\<lambda>(k, v). (f k, stringify_renamed f v)) es)))"
    by (simp only: revive_renamed.simps)
  also have "\<dots> = JObj (renameKeys g (map (\<lambda>(k, v). (f k, v)) es))"
    by (simp only: revived)
  also have "\<dots> = JObj es"
    by (simp only: renameKeys_inverse(2) [where g = g and f = f, OF keys round])
  finally show ?case
    unfolding written by simp
qed simp_all

lemma keysAll_mono: "(\<And>k. P k \<Longrightarrow> Q k) \<Longrightarrow> keysAll P x \<Longrightarrow> keysAll Q x"
proof (induction x)
  case (JObj es)
  have "\<forall>(k, v) \<in> set es. Q k \<and> keysAll Q v"
  proof (clarify)
    fix k v
    assume in_es: "(k, v) \<in> set es"
    then have "P k" and "keysAll P v"
      using JObj.prems(2) by (auto simp: list_all_iff)
    moreover have "v \<in> Basic_BNFs.snds (k, v)" by simp
    ultimately show "Q k \<and> keysAll Q v"
      using JObj.IH [OF in_es] JObj.prems(1) by blast
  qed
  then show ?case by (simp add: list_all_iff)
qed (auto simp: list_all_iff)

subsection \<open>The round trip\<close>

text \<open>
  For every JSON-compatible value whose object keys, at every depth, are camelCase keys
  free of inherited names, \<open>serialize\<close> produces a text and \<open>parse\<close> of that text is
  the value again: the keys of nested objects, also inside arrays, come back as they
  were.
\<close>

lemma parse_serialize_stable_keys:
  assumes "jsonCompatible x" and "keysAll stableKey x"
  shows "map_option parse (serialize x) = Some (Inr x)"
proof -
  have "keysAll (\<lambda>k. camelize_lower (underscore k) = k) x"
    using assms(2) camelize_underscore by (rule keysAll_mono [rotated])
  then have "stringify_renamed underscore x \<noteq> JUndefined
      \<and> revive_renamed camelize_lower (stringify_renamed underscore x) = x"
    using assms(1) by (intro walk_roundtrip)
  then show ?thesis
    by (simp add: serialize_def parse_def Let_def)
qed

text \<open>
  A value with nested objects and an array: what \<open>serialize\<close> writes, and that
  \<open>parse\<close> reads the value back.
\<close>

lemma compatible_example:
  "jsonCompatible (JObj [(''fooBar'', JStr ''baz''),
      (''items'', JArr [JObj [(''line2Address'', JNum 1), (''nestedKey'', JObj [(''deepValue'', JNull)])]]),
      (''x'', JBool True)])"
  by code_simp

lemma stable_example:
  "keysAll stableKey (JObj [(''fooBar'', JStr ''baz''),
      (''items'', JArr [JObj [(''line2Address'', JNum 1), (''nestedKey'', JObj [(''deepValue'', JNull)])]]),
      (''x'', JBool True)])"
  by code_simp

lemma serialize_example:
  "serialize (JObj [(''fooBar'', JStr ''baz''),
      (''items'', JArr [JObj [(''line2Address'', JNum 1), (''nestedKey'', JObj [(''deepValue'', JNull)])]]),
      (''x'', JBool True)])
   = Some (JSONText (JObj [(''foo_bar'', JStr ''baz''),
      (''items'', JArr [JObj [(''line2_address'', JNum 1), (''nested_key'', JObj [(''deep_value'', JNull)])]]),
      (''x'', JBool True)]))"
  by code_simp

lemma parse_serialize_example:
  "parse (JSONText (JObj [(''foo_bar'', JStr ''baz''),
      (''items'', JArr [JObj [(''line2_address'', JNum 1), (''nested_key'', JObj [(''deep_value'', JNull)])]]),
      (''x'', JBool True)]))
   = Inr (JObj [(''fooBar'', JStr ''baz''),
      (''items'', JArr [JObj [(''line2Address'', JNum 1), (''nestedKey'', JObj [(''deepValue'', JNull)])]]),
      (''x'', JBool True)])"
  using parse_serialize_stable_keys [OF compatible_example stable_example] serialize_example
  by simp

subsection \<open>A key with the word \<open>constructor\<close>\<close>

text \<open>
  Claim C4 says that \<open>parse(serialize(x))\<close> is structurally equal to \<open>x\<close> for every
  JSON-compatible \<open>x\<close> whose object keys are camelCase keys. The object
  \<open>{myConstructor: 1}\<close> is such a value, and it does not come back: \<open>serialize\<close> writes
  the key \<open>my_constructor\<close>, and \<open>parse\<close> reads it as \<open>my\<close> followed by the source text of
  the function \<open>Object\<close>, because \<open>camelize\<close> looks the word \<open>constructor\<close> up in its
  empty table of acronyms and finds the property that the table inherits.
\<close>

theorem parse_serialize_inherited_name:
  "jsonCompatible (JObj [(''myConstructor'', JNum 1)])
   \<and> camelCaseKeys (JObj [(''myConstructor'', JNum 1)])
   \<and> serialize (JObj [(''myConstructor'', JNum 1)])
       = Some (JSONText (JObj [(''my_constructor'', JNum 1)]))
   \<and> parse (JSONText (JObj [(''my_constructor'', JNum 1)]))
       = Inr (JObj [(''myfunction Object() { [native code] }'', JNum 1)])
   \<and> map_option parse (serialize (JObj [(''myConstructor'', JNum 1)]))
       \<noteq> Some (Inr (JObj [(''myConstructor'', JNum 1)]))"
  by code_simp

subsection \<open>The tests of the repository, and a key outside the camelCase keys\<close>

text \<open>
  The two tests of \<open>parse\<close> and \<open>serialize\<close> in \<open>api-client.test.ts\<close>: \<open>parse\<close> of \<open>{"foo_bar": "baz"}\<close> is
  \<open>{fooBar: "baz"}\<close>, and \<open>serialize\<close> of \<open>{fooBar: "baz"}\<close> is \<open>{"foo_bar":"baz"}\<close>.
\<close>

lemma json_tests:
  "parse (JSONText (JObj [(''foo_bar'', JStr ''baz'')])) = Inr (JObj [(''fooBar'', JStr ''baz'')])
   \<and> serialize (JObj [(''fooBar'', JStr ''baz'')]) = Some (JSONText (JObj [(''foo_bar'', JStr ''baz'')]))"
  by code_simp

text \<open>
  Two capitals next to each other do not survive: \<open>userID\<close> is written \<open>user_id\<close> and
  read back as \<open>userId\<close>. Such a key is not a camelCase key in the sense above.
\<close>

lemma adjacent_capitals_are_not_stable:
  "\<not> camelCaseKey ''userID''
   \<and> map_option parse (serialize (JObj [(''userID'', JNum 1)])) = Some (Inr (JObj [(''userId'', JNum 1)]))"
  by code_simp

end
